theory Spec2Isabelle
  imports
    Main
    "HOL-Library.Char_ord"
    "HOL-Library.List_Lexorder"
    "HOL-Library.AList"
    "HOL-Library.Sublist"
begin

section \<open>Values of the showcase renderer\<close>

text \<open>
  The script \<^verbatim>\<open>scripts/render_showcase_entry.py\<close> works on the value that
  \<^verbatim>\<open>json.loads\<close> returns. A Python \<^verbatim>\<open>str\<close> is modelled by the bytes of its
  UTF-8 encoding (\<^typ>\<open>string\<close>), a \<^verbatim>\<open>dict\<close> by an association list in insertion
  order, an \<^verbatim>\<open>int\<close> by \<^typ>\<open>int\<close>, and a \<^verbatim>\<open>float\<close> by the text of its
  \<^verbatim>\<open>repr\<close> (no arithmetic is done on floats here; only their truth value and their
  printed form are used).
\<close>

datatype json =
    JNull
  | JBool bool
  | JInt int
  | JFloat string
  | JStr string
  | JList "json list"
  | JObj "(string \<times> json) list"

type_synonym dict = "(string \<times> json) list"

definition dict_get :: "dict \<Rightarrow> string \<Rightarrow> json option" where
  "dict_get d k = map_of d k"

definition dict_keys :: "dict \<Rightarrow> string list" where
  "dict_keys d = map fst d"

text \<open>Assignment \<^verbatim>\<open>d[k] = v\<close>: an existing key keeps its place, a new one goes last.\<close>

definition dict_set :: "string \<Rightarrow> json \<Rightarrow> dict \<Rightarrow> dict" where
  "dict_set k v d = AList.update k v d"

fun is_str :: "json \<Rightarrow> bool" where
  "is_str (JStr s) = True"
| "is_str v = False"

text \<open>Python's truth value of a JSON value (\<^verbatim>\<open>if x:\<close>).\<close>

fun truthy :: "json \<Rightarrow> bool" where
  "truthy JNull = False"
| "truthy (JBool b) = b"
| "truthy (JInt i) = (i \<noteq> 0)"
| "truthy (JFloat r) = (r \<noteq> ''0.0'' \<and> r \<noteq> ''-0.0'')"
| "truthy (JStr s) = (s \<noteq> [])"
| "truthy (JList xs) = (xs \<noteq> [])"
| "truthy (JObj kvs) = (kvs \<noteq> [])"

text \<open>\<^verbatim>\<open>d.get(k)\<close> used as a condition: an absent key gives \<^verbatim>\<open>None\<close>, which is false.\<close>

definition get_truthy :: "dict \<Rightarrow> string \<Rightarrow> bool" where
  "get_truthy d k = (case dict_get d k of None \<Rightarrow> False | Some v \<Rightarrow> truthy v)"

section \<open>Strings\<close>

definition NL :: char where
  "NL = CHR 0x0A"

text \<open>\<^verbatim>\<open>sep.join(xs)\<close>\<close>

fun join :: "string \<Rightarrow> string list \<Rightarrow> string" where
  "join sep [] = []"
| "join sep [x] = x"
| "join sep (x # y # ys) = x @ sep @ join sep (y # ys)"

text \<open>
  The characters that \<^verbatim>\<open>str.strip()\<close> removes, as UTF-8 byte sequences: U+0009..U+000D,
  U+001C..U+0020, U+0085, U+00A0, U+1680, U+2000..U+200A, U+2028, U+2029, U+202F, U+205F,
  U+3000.
\<close>

definition WHITESPACE :: "string list" where
  "WHITESPACE =
    [[CHR 0x09], [CHR 0x0A], [CHR 0x0B], [CHR 0x0C], [CHR 0x0D],
     [CHR 0x1C], [CHR 0x1D], [CHR 0x1E], [CHR 0x1F], [CHR 0x20],
     [CHR 0xC2, CHR 0x85], [CHR 0xC2, CHR 0xA0],
     [CHR 0xE1, CHR 0x9A, CHR 0x80],
     [CHR 0xE2, CHR 0x80, CHR 0x80], [CHR 0xE2, CHR 0x80, CHR 0x81],
     [CHR 0xE2, CHR 0x80, CHR 0x82], [CHR 0xE2, CHR 0x80, CHR 0x83],
     [CHR 0xE2, CHR 0x80, CHR 0x84], [CHR 0xE2, CHR 0x80, CHR 0x85],
     [CHR 0xE2, CHR 0x80, CHR 0x86], [CHR 0xE2, CHR 0x80, CHR 0x87],
     [CHR 0xE2, CHR 0x80, CHR 0x88], [CHR 0xE2, CHR 0x80, CHR 0x89],
     [CHR 0xE2, CHR 0x80, CHR 0x8A],
     [CHR 0xE2, CHR 0x80, CHR 0xA8], [CHR 0xE2, CHR 0x80, CHR 0xA9],
     [CHR 0xE2, CHR 0x80, CHR 0xAF],
     [CHR 0xE2, CHR 0x81, CHR 0x9F],
     [CHR 0xE3, CHR 0x80, CHR 0x80]]"

text \<open>Removing, from the front, every leading occurrence of one of the sequences \<open>ws\<close>.\<close>

function drop_leading :: "string list \<Rightarrow> string \<Rightarrow> string" where
  "drop_leading ws s =
     (case find (\<lambda>w. w \<noteq> [] \<and> prefix w s) ws of
        None \<Rightarrow> s
      | Some w \<Rightarrow> drop_leading ws (drop (length w) s))"
  by pat_completeness auto
termination
proof (relation "measure (\<lambda>(ws, s). length s)")
  show "wf (measure (\<lambda>(ws, s). length s))"
    by simp
next
  fix ws :: "string list" and s w :: string
  assume "find (\<lambda>w. w \<noteq> [] \<and> prefix w s) ws = Some w"
  then have "w \<noteq> []" and "prefix w s"
    by (auto simp: find_Some_iff)
  then have "s \<noteq> []" and "0 < length w"
    by auto
  then show "((ws, drop (length w) s), (ws, s)) \<in> measure (\<lambda>(ws, s). length s)"
    by simp
qed

declare drop_leading.simps [simp del]

definition lstrip :: "string \<Rightarrow> string" where
  "lstrip s = drop_leading WHITESPACE s"

definition rstrip :: "string \<Rightarrow> string" where
  "rstrip s = rev (drop_leading (map rev WHITESPACE) (rev s))"

definition strip :: "string \<Rightarrow> string" where
  "strip s = rstrip (lstrip s)"

text \<open>\<^verbatim>\<open>isinstance(v, str) and v.strip()\<close>\<close>

fun nonblank_str :: "json \<Rightarrow> bool" where
  "nonblank_str (JStr s) = (strip s \<noteq> [])"
| "nonblank_str v = False"

text \<open>\<^verbatim>\<open>s.replace(old, new)\<close> for a non-empty \<open>old\<close>: occurrences are replaced left to right.\<close>

function replace :: "string \<Rightarrow> string \<Rightarrow> string \<Rightarrow> string" where
  "replace old new s =
     (if old = [] \<or> s = [] then s
      else if prefix old s then new @ replace old new (drop (length old) s)
      else hd s # replace old new (tl s))"
  by pat_completeness auto
termination
  by (relation "measure (\<lambda>(old, new, s). length s)") auto

declare replace.simps [simp del]

text \<open>\<^verbatim>\<open>s.split(sep)\<close> for a one-character separator.\<close>

fun split :: "char \<Rightarrow> string \<Rightarrow> string list" where
  "split sep [] = [[]]"
| "split sep (c # s) =
     (if c = sep then [] # split sep s
      else (case split sep s of
              [] \<Rightarrow> [[c]]
            | p # ps \<Rightarrow> (c # p) # ps))"

text \<open>
  \<^verbatim>\<open>Path(s).name\<close> on a POSIX system: the last component of the path, where empty
  components and \<^verbatim>\<open>.\<close> components are dropped when the path is parsed; the empty string
  when no component is left.
\<close>

definition path_name :: "string \<Rightarrow> string" where
  "path_name s =
     (let parts = filter (\<lambda>p. p \<noteq> [] \<and> p \<noteq> ''.'') (split (CHR ''/'') s)
      in if parts = [] then [] else last parts)"

section \<open>Regular expressions\<close>

text \<open>
  The fragment of \<^verbatim>\<open>re\<close> that \<^verbatim>\<open>SENSITIVE_PATTERNS\<close> uses. \<open>Lit\<close> is a literal,
  \<open>ILit\<close> a literal under the flag \<^verbatim>\<open>(?i)\<close>, \<open>Cls\<close> a character class given by its
  ranges, \<open>Times n r\<close> is \<^verbatim>\<open>r{n}\<close> and \<open>AtLeast n rs\<close> is \<^verbatim>\<open>[rs]{n,}\<close>.
\<close>

datatype regex =
    Lit string
  | ILit string
  | Cls "(char \<times> char) list"
  | Then regex regex
  | Or regex regex
  | Opt regex
  | Times nat regex
  | AtLeast nat "(char \<times> char) list"

definition in_ranges :: "(char \<times> char) list \<Rightarrow> char \<Rightarrow> bool" where
  "in_ranges rs c = list_ex (\<lambda>(lo, hi). lo \<le> c \<and> c \<le> hi) rs"

definition is_lower :: "char \<Rightarrow> bool" where
  "is_lower c = (CHR ''a'' \<le> c \<and> c \<le> CHR ''z'')"

definition is_upper :: "char \<Rightarrow> bool" where
  "is_upper c = (CHR ''A'' \<le> c \<and> c \<le> CHR ''Z'')"

definition to_lower :: "char \<Rightarrow> char" where
  "to_lower c = (if is_upper c then char_of (of_char c + (32::nat)) else c)"

definition to_upper :: "char \<Rightarrow> char" where
  "to_upper c = (if is_lower c then char_of (of_char c - (32::nat)) else c)"

text \<open>
  Under \<^verbatim>\<open>(?i)\<close> an ASCII letter of a \<^verbatim>\<open>str\<close> pattern matches its two cases and,
  by Unicode case folding, four more characters: U+0130 and U+0131 match \<^verbatim>\<open>i\<close>,
  U+017F matches \<^verbatim>\<open>s\<close>, and U+212A matches \<^verbatim>\<open>k\<close>. They appear here as their
  UTF-8 encodings.
\<close>

definition folded_forms :: "char \<Rightarrow> string list" where
  "folded_forms c =
     (if c = CHR ''i'' then [[CHR 0xC4, CHR 0xB0], [CHR 0xC4, CHR 0xB1]]
      else if c = CHR ''s'' then [[CHR 0xC5, CHR 0xBF]]
      else if c = CHR ''k'' then [[CHR 0xE2, CHR 0x84, CHR 0xAA]]
      else [])"

definition ci_forms :: "char \<Rightarrow> string list" where
  "ci_forms c =
     (let lo = to_lower c
      in if is_lower lo then [[lo], [to_upper lo]] @ folded_forms lo else [[c]])"

text \<open>The rests of \<open>s\<close> after one of the forms \<open>fs\<close> has been read from its front.\<close>

definition after_forms :: "string list \<Rightarrow> string \<Rightarrow> string list" where
  "after_forms fs s = map (\<lambda>f. drop (length f) s) (filter (\<lambda>f. prefix f s) fs)"

fun imatch :: "string \<Rightarrow> string \<Rightarrow> string list" where
  "imatch [] s = [s]"
| "imatch (c # l) s = concat (map (imatch l) (after_forms (ci_forms c) s))"

text \<open>The rests of \<open>s\<close> after \<open>k\<close> characters that satisfy \<open>p\<close>, for every possible \<open>k\<close>.\<close>

fun runs :: "(char \<Rightarrow> bool) \<Rightarrow> string \<Rightarrow> string list" where
  "runs p [] = [[]]"
| "runs p (c # s) = (c # s) # (if p c then runs p s else [])"

text \<open>A measure for the recursion of the matcher: \<open>Times n r\<close> unfolds \<open>n\<close> times.\<close>

fun regex_weight :: "regex \<Rightarrow> nat" where
  "regex_weight (Then a b) = Suc (regex_weight a + regex_weight b)"
| "regex_weight (Or a b) = Suc (regex_weight a + regex_weight b)"
| "regex_weight (Opt a) = Suc (regex_weight a)"
| "regex_weight (Times n a) = Suc (n + regex_weight a)"
| "regex_weight r = 0"

text \<open>\<open>rmatch r s\<close>: the rests of \<open>s\<close> after each way of matching \<open>r\<close> at the front of \<open>s\<close>.\<close>

function (sequential) rmatch :: "regex \<Rightarrow> string \<Rightarrow> string list" where
  "rmatch (Lit l) s = (if prefix l s then [drop (length l) s] else [])"
| "rmatch (ILit l) s = imatch l s"
| "rmatch (Cls rs) s =
     (case s of [] \<Rightarrow> [] | c # t \<Rightarrow> if in_ranges rs c then [t] else [])"
| "rmatch (Then a b) s = concat (map (rmatch b) (rmatch a s))"
| "rmatch (Or a b) s = rmatch a s @ rmatch b s"
| "rmatch (Opt a) s = rmatch a s @ [s]"
| "rmatch (Times 0 a) s = [s]"
| "rmatch (Times (Suc n) a) s = concat (map (rmatch (Times n a)) (rmatch a s))"
| "rmatch (AtLeast n rs) s = drop n (runs (in_ranges rs) s)"
  by pat_completeness auto
termination
  by (relation "measure (\<lambda>(r, s). regex_weight r)") auto

text \<open>\<^verbatim>\<open>pattern.search(text)\<close> as a condition: a match starts at some position.\<close>

fun search :: "regex \<Rightarrow> string \<Rightarrow> bool" where
  "search r [] = (rmatch r [] \<noteq> [])"
| "search r (c # s) = (rmatch r (c # s) \<noteq> [] \<or> search r s)"

definition upper_alnum :: "(char \<times> char) list" where
  "upper_alnum = [(CHR ''0'', CHR ''9''), (CHR ''A'', CHR ''Z'')]"

definition alnum :: "(char \<times> char) list" where
  "alnum = [(CHR ''A'', CHR ''Z''), (CHR ''a'', CHR ''z''), (CHR ''0'', CHR ''9'')]"

definition SENSITIVE_PATTERNS :: "regex list" where
  "SENSITIVE_PATTERNS =
    [Then (Lit ''AKIA'') (Times 16 (Cls upper_alnum)),
     ILit ''aws_secret_access_key'',
     Then (ILit ''api'')
       (Then (Opt (Cls [(CHR ''_'', CHR ''_''), (CHR ''-'', CHR ''-'')])) (ILit ''key'')),
     ILit ''password'',
     ILit ''secret'',
     Then (Lit ''-----BEGIN '')
       (Then (Or (Lit ''RSA'') (Or (Lit ''EC'') (Or (Lit ''DSA'')
                (Or (Lit ''OPENSSH'') (Lit ''PRIVATE'')))))
          (Lit '' KEY-----'')),
     Then (Lit ''ghp_'') (AtLeast 30 alnum)]"

definition sensitive :: "string \<Rightarrow> bool" where
  "sensitive text = list_ex (\<lambda>pattern. search pattern text) SENSITIVE_PATTERNS"

section \<open>Collecting the strings of a value\<close>

fun walk_strings :: "json \<Rightarrow> string list" where
  "walk_strings (JStr s) = [s]"
| "walk_strings (JObj kvs) = concat (map (\<lambda>(k, v). walk_strings v) kvs)"
| "walk_strings (JList items) = concat (map walk_strings items)"
| "walk_strings v = []"

section \<open>ISO dates\<close>

text \<open>
  \<^verbatim>\<open>is_iso_date\<close> asks whether \<^verbatim>\<open>datetime.date.fromisoformat\<close> raises
  \<^verbatim>\<open>ValueError\<close>. The script needs Python 3.11 (it uses \<^verbatim>\<open>datetime.UTC\<close>), where that
  library function reads a string of 7, 8 or 10 bytes: four digits of the year, an optional
  \<^verbatim>\<open>-\<close>, then either a month and a day of two digits each, or \<^verbatim>\<open>W\<close>, a week of two
  digits and an optional day of one digit. Bytes after the day are not looked at.
  The date read must exist in the years 1 to 9999.
\<close>

definition is_digit :: "char \<Rightarrow> bool" where
  "is_digit c = (CHR ''0'' \<le> c \<and> c \<le> CHR ''9'')"

definition digit_val :: "char \<Rightarrow> int" where
  "digit_val c = int (of_char c) - 48"

fun parse_digits :: "nat \<Rightarrow> int \<Rightarrow> string \<Rightarrow> (int \<times> string) option" where
  "parse_digits 0 acc s = Some (acc, s)"
| "parse_digits (Suc n) acc [] = None"
| "parse_digits (Suc n) acc (c # s) =
     (if is_digit c then parse_digits n (acc * 10 + digit_val c) s else None)"

definition is_leap :: "int \<Rightarrow> bool" where
  "is_leap y = (y mod 4 = 0 \<and> (y mod 100 \<noteq> 0 \<or> y mod 400 = 0))"

definition days_in_month :: "int \<Rightarrow> int \<Rightarrow> int" where
  "days_in_month y m =
     (if m = 2 \<and> is_leap y then 29
      else [0, 31, 28, 31, 30, 31, 30, 31, 31, 30, 31, 30, 31] ! nat m)"

definition valid_ymd :: "int \<Rightarrow> int \<Rightarrow> int \<Rightarrow> bool" where
  "valid_ymd y m d =
     (1 \<le> y \<and> y \<le> 9999 \<and> 1 \<le> m \<and> m \<le> 12 \<and> 1 \<le> d \<and> d \<le> days_in_month y m)"

text \<open>The number of days before 1 January of year \<open>y\<close>, counted from 1 January of year 1.\<close>

definition days_before_year :: "int \<Rightarrow> int" where
  "days_before_year y =
     (let p = y - 1 in p * 365 + p div 4 - p div 100 + p div 400)"

text \<open>The ordinal of the Monday that starts ISO week 1 of year \<open>y\<close>.\<close>

definition iso_week1_monday :: "int \<Rightarrow> int" where
  "iso_week1_monday y =
     (let first_day = days_before_year y + 1;
          first_weekday = (first_day + 6) mod 7;
          week1_monday = first_day - first_weekday
      in if first_weekday > 3 then week1_monday + 7 else week1_monday)"

definition MAXORDINAL :: int where
  "MAXORDINAL = 3652059"

text \<open>
  An ISO week date: week 53 exists only in a year that starts on a Thursday, or on a
  Wednesday when it is a leap year; the day it names must lie between 0001-01-01 and
  9999-12-31.
\<close>

definition valid_iso_week :: "int \<Rightarrow> int \<Rightarrow> int \<Rightarrow> bool" where
  "valid_iso_week y w d =
     (let first_weekday = (days_before_year y + 1 + 6) mod 7;
          ordinal = iso_week1_monday y + (w - 1) * 7 + d - 1
      in ((1 \<le> w \<and> w \<le> 52) \<or> (w = 53 \<and> (first_weekday = 3 \<or> (first_weekday = 2 \<and> is_leap y))))
         \<and> 1 \<le> d \<and> d \<le> 7
         \<and> 1 \<le> ordinal \<and> ordinal \<le> MAXORDINAL)"

definition starts_with :: "char \<Rightarrow> string \<Rightarrow> bool" where
  "starts_with c s = (case s of [] \<Rightarrow> False | x # t \<Rightarrow> x = c)"

definition parse_week_date :: "int \<Rightarrow> bool \<Rightarrow> string \<Rightarrow> bool" where
  "parse_week_date year uses_separator p =
     (case parse_digits 2 0 p of
        None \<Rightarrow> False
      | Some (week, q) \<Rightarrow>
          if q = [] then valid_iso_week year week 1
          else if uses_separator \<and> \<not> starts_with (CHR ''-'') q then False
          else (case parse_digits 1 0 (if uses_separator then tl q else q) of
                  None \<Rightarrow> False
                | Some (day, r) \<Rightarrow> valid_iso_week year week day))"

definition parse_calendar_date :: "int \<Rightarrow> bool \<Rightarrow> string \<Rightarrow> bool" where
  "parse_calendar_date year uses_separator p =
     (case parse_digits 2 0 p of
        None \<Rightarrow> False
      | Some (month, q) \<Rightarrow>
          if uses_separator \<and> \<not> starts_with (CHR ''-'') q then False
          else (case parse_digits 2 0 (if uses_separator then tl q else q) of
                  None \<Rightarrow> False
                | Some (day, r) \<Rightarrow> valid_ymd year month day))"

definition fromisoformat_ok :: "string \<Rightarrow> bool" where
  "fromisoformat_ok s =
     (if length s \<noteq> 7 \<and> length s \<noteq> 8 \<and> length s \<noteq> 10 then False
      else (case parse_digits 4 0 s of
              None \<Rightarrow> False
            | Some (year, p) \<Rightarrow>
                let uses_separator = starts_with (CHR ''-'') p;
                    q = (if uses_separator then tl p else p)
                in if starts_with (CHR ''W'') q
                   then parse_week_date year uses_separator (tl q)
                   else parse_calendar_date year uses_separator q))"

definition is_iso_date :: "string \<Rightarrow> bool" where
  "is_iso_date v = fromisoformat_ok v"

section \<open>Failure\<close>

text \<open>
  A run of the script stops either by \<^verbatim>\<open>sys.exit\<close> (after printing to the error stream)
  or by an exception that nothing catches. \<open>SystemExit text code\<close> carries the text that was
  printed and the exit status.
\<close>

datatype pyexn = KeyError string | TypeError | JSONDecodeError

datatype abort = SystemExit string nat | Uncaught pyexn

definition fail :: "string \<Rightarrow> abort + 'a" where
  "fail message = Inl (SystemExit (''ERROR: '' @ message @ [NL]) 1)"

definition raise :: "pyexn \<Rightarrow> abort + 'a" where
  "raise e = Inl (Uncaught e)"

definition and_then :: "abort + 'a \<Rightarrow> ('a \<Rightarrow> abort + 'b) \<Rightarrow> abort + 'b" where
  "and_then r f = (case r of Inl a \<Rightarrow> Inl a | Inr v \<Rightarrow> f v)"

text \<open>\<^verbatim>\<open>data[key]\<close>\<close>

definition item :: "dict \<Rightarrow> string \<Rightarrow> abort + json" where
  "item d k = (case dict_get d k of None \<Rightarrow> raise (KeyError k) | Some v \<Rightarrow> Inr v)"

section \<open>The validator\<close>

text \<open>
  \<^verbatim>\<open>ALLOWED_KEYS\<close> and \<^verbatim>\<open>REQUIRED_KEYS\<close> are Python sets; the lists below hold their
  elements in the order of the source text.
\<close>

definition ALLOWED_KEYS :: "string list" where
  "ALLOWED_KEYS =
    [''title'', ''one_liner'', ''problem'', ''solution'', ''impact'', ''stack'', ''status'',
     ''updated_at'', ''tags'', ''highlights'', ''screenshot_url'', ''demo_url'',
     ''article_url'', ''visibility_note'']"

definition REQUIRED_KEYS :: "string list" where
  "REQUIRED_KEYS = [''title'', ''one_liner'', ''problem'', ''solution'', ''impact'', ''stack'']"

text \<open>\<^verbatim>\<open>sorted(REQUIRED_KEYS - data.keys())\<close>\<close>

definition missing_keys :: "dict \<Rightarrow> string list" where
  "missing_keys data = sort (filter (\<lambda>k. k \<notin> set (dict_keys data)) REQUIRED_KEYS)"

text \<open>A non-empty list of strings that are not blank.\<close>

fun stack_ok :: "json \<Rightarrow> bool" where
  "stack_ok (JList items) = (items \<noteq> [] \<and> list_all nonblank_str items)"
| "stack_ok v = False"

fun str_list :: "json \<Rightarrow> bool" where
  "str_list (JList items) = list_all is_str items"
| "str_list v = False"

fun iso_date_str :: "json \<Rightarrow> bool" where
  "iso_date_str (JStr s) = is_iso_date s"
| "iso_date_str v = False"

text \<open>
  The loop \<^verbatim>\<open>for key in REQUIRED_KEYS\<close>. A set has no fixed iteration order (it follows
  the hashes of the strings, which change from run to run), so the order in which the keys
  are visited is the argument \<open>keys\<close>.
\<close>

fun check_required :: "string list \<Rightarrow> dict \<Rightarrow> abort + unit" where
  "check_required [] data = Inr ()"
| "check_required (key # keys) data =
     (if key = ''stack'' then
        and_then (item data key) (\<lambda>v.
          if \<not> stack_ok v then fail ''`stack` must be a non-empty list of strings''
          else check_required keys data)
      else
        and_then (item data key) (\<lambda>v.
          if \<not> nonblank_str v then fail (''`'' @ key @ ''` must be a non-empty string'')
          else check_required keys data))"

text \<open>\<^verbatim>\<open>if k in data: if not p(data[k])\<close>\<close>

definition present_but_not :: "(json \<Rightarrow> bool) \<Rightarrow> string \<Rightarrow> dict \<Rightarrow> bool" where
  "present_but_not p k data = (case dict_get data k of None \<Rightarrow> False | Some v \<Rightarrow> \<not> p v)"

definition UPDATED_AT_MESSAGE :: string where
  "UPDATED_AT_MESSAGE = ''`updated_at` must be an ISO date (YYYY-MM-DD)''"

definition SENSITIVE_MESSAGE :: string where
  "SENSITIVE_MESSAGE =
     ''Sensitive-looking content detected in metadata. '' @
     ''Remove secrets from .showcase.json before publishing.''"

definition validate :: "string list \<Rightarrow> dict \<Rightarrow> abort + unit" where
  "validate keys data =
     (let missing = missing_keys data
      in if missing \<noteq> [] then fail (''Missing required keys: '' @ join '', '' missing)
         else and_then (check_required keys data) (\<lambda>u.
           if present_but_not iso_date_str ''updated_at'' data
           then fail UPDATED_AT_MESSAGE
           else if present_but_not str_list ''tags'' data
           then fail ''`tags` must be a list of strings''
           else if present_but_not str_list ''highlights'' data
           then fail ''`highlights` must be a list of strings''
           else if list_ex sensitive (walk_strings (JObj data))
           then fail SENSITIVE_MESSAGE
           else Inr ()))"

section \<open>The sanitizer\<close>

text \<open>
  What a run reads from outside the input file: the working directory, the variable
  \<^verbatim>\<open>GITHUB_REPOSITORY\<close>, and the clock, as the two texts \<^verbatim>\<open>now.isoformat()\<close> and
  \<^verbatim>\<open>now.date().isoformat()\<close>. Three things belong to the interpreter and are taken as
  they come: \<open>str_repr\<close> is \<^verbatim>\<open>repr\<close> of a \<^verbatim>\<open>str\<close> (its quoting and escaping),
  \<open>required_order\<close> the order in which the set \<^verbatim>\<open>REQUIRED_KEYS\<close> is iterated, and
  \<open>traceback\<close> the text printed for an uncaught exception after its first line.
\<close>

record env =
  cwd :: string
  github_repository :: "string option"
  now_isoformat :: string
  now_date :: string
  str_repr :: "string \<Rightarrow> string"
  required_order :: "string list"
  traceback :: "pyexn \<Rightarrow> string"

function digits :: "nat \<Rightarrow> string" where
  "digits n =
     (if n < 10 then [char_of (48 + n)]
      else digits (n div 10) @ [char_of (48 + n mod 10)])"
  by pat_completeness auto
termination
  by (relation "measure (\<lambda>n. n)") auto

declare digits.simps [simp del]

definition str_int :: "int \<Rightarrow> string" where
  "str_int i = (if i < 0 then ''-'' @ digits (nat (- i)) else digits (nat i))"

text \<open>\<^verbatim>\<open>repr(v)\<close> and \<^verbatim>\<open>str(v)\<close> of a JSON value; \<open>q\<close> is \<^verbatim>\<open>repr\<close> on strings.\<close>

fun py_repr :: "(string \<Rightarrow> string) \<Rightarrow> json \<Rightarrow> string" where
  "py_repr q JNull = ''None''"
| "py_repr q (JBool b) = (if b then ''True'' else ''False'')"
| "py_repr q (JInt i) = str_int i"
| "py_repr q (JFloat r) = r"
| "py_repr q (JStr s) = q s"
| "py_repr q (JList items) = ''['' @ join '', '' (map (py_repr q) items) @ '']''"
| "py_repr q (JObj kvs) =
     ''{'' @ join '', '' (map (\<lambda>(k, v). q k @ '': '' @ py_repr q v) kvs) @ ''}''"

fun py_str :: "(string \<Rightarrow> string) \<Rightarrow> json \<Rightarrow> string" where
  "py_str q (JStr s) = s"
| "py_str q v = py_repr q v"

definition sanitize :: "env \<Rightarrow> dict \<Rightarrow> dict" where
  "sanitize e data =
     (let repo = (if get_truthy data ''repo''
                  then path_name (py_str (str_repr e)
                         (case dict_get data ''repo'' of None \<Rightarrow> JStr [] | Some v \<Rightarrow> v))
                  else path_name (cwd e));
          resolved = (case github_repository e of
                        None \<Rightarrow> (repo, None)
                      | Some env_repo \<Rightarrow>
                          if env_repo \<noteq> []
                          then (last (split (CHR ''/'') env_repo), Some env_repo)
                          else (repo, None));
          repo = fst resolved;
          source_repo = snd resolved;
          out = concat (map (\<lambda>k. case dict_get data k of None \<Rightarrow> [] | Some v \<Rightarrow> [(k, v)])
                  ALLOWED_KEYS);
          out = dict_set ''project_id'' (JStr repo) out;
          out = dict_set ''generated_at''
                  (JStr (replace ''+00:00'' ''Z'' (now_isoformat e))) out;
          out = dict_set ''updated_at''
                  (case dict_get out ''updated_at'' of
                     None \<Rightarrow> JStr (now_date e)
                   | Some v \<Rightarrow> v) out
      in case source_repo of
           None \<Rightarrow> out
         | Some r \<Rightarrow> dict_set ''source_repo'' (JStr r) out)"

section \<open>The renderer\<close>

text \<open>The characters of a \<^verbatim>\<open>str\<close>: each leading byte with its continuation bytes.\<close>

definition is_continuation :: "char \<Rightarrow> bool" where
  "is_continuation c = (CHR 0x80 \<le> c \<and> c \<le> CHR 0xBF)"

function chars_of :: "string \<Rightarrow> string list" where
  "chars_of [] = []"
| "chars_of (c # s) =
     (c # takeWhile is_continuation s) # chars_of (dropWhile is_continuation s)"
  by pat_completeness auto
termination
  by (relation "measure length") (auto simp: length_dropWhile_le less_Suc_eq_le)

fun the_str :: "json \<Rightarrow> string" where
  "the_str (JStr s) = s"
| "the_str v = []"

text \<open>
  \<^verbatim>\<open>', '.join(v)\<close>: a list must hold strings only; a string is joined character by
  character and a dict key by key; any other value is not iterable.
\<close>

fun join_value :: "json \<Rightarrow> abort + string" where
  "join_value (JList items) =
     (if list_all is_str items then Inr (join '', '' (map the_str items)) else raise TypeError)"
| "join_value (JStr s) = Inr (join '', '' (chars_of s))"
| "join_value (JObj kvs) = Inr (join '', '' (map fst kvs))"
| "join_value v = raise TypeError"

text \<open>\<^verbatim>\<open>v[:6]\<close>, as the list of the items the loop then visits.\<close>

fun first_six :: "json \<Rightarrow> abort + json list" where
  "first_six (JList items) = Inr (take 6 items)"
| "first_six (JStr s) = Inr (map JStr (take 6 (chars_of s)))"
| "first_six v = raise TypeError"

text \<open>\<^verbatim>\<open>if data.get(k): lines.append(f"{label}{data[k]}")\<close>\<close>

definition optional_line :: "(string \<Rightarrow> string) \<Rightarrow> string \<Rightarrow> string \<Rightarrow> dict \<Rightarrow> json list" where
  "optional_line q label k data =
     (case dict_get data k of
        None \<Rightarrow> []
      | Some v \<Rightarrow> if truthy v then [JStr (label @ py_str q v)] else [])"

text \<open>\<^verbatim>\<open>"\n".join(lines)\<close>: every line must be a string.\<close>

definition join_lines :: "json list \<Rightarrow> abort + string" where
  "join_lines lines =
     (if list_all is_str lines then Inr (join [NL] (map the_str lines)) else raise TypeError)"

definition screenshot_lines :: "string \<Rightarrow> dict \<Rightarrow> json list" where
  "screenshot_lines title data =
     (case dict_get data ''screenshot_url'' of
        Some (JStr url) \<Rightarrow>
          if strip url \<noteq> []
          then [JStr (''!['' @ title @ '' screenshot]('' @ url @ '')''), JStr []]
          else []
      | _ \<Rightarrow> [])"

definition highlight_lines :: "(string \<Rightarrow> string) \<Rightarrow> dict \<Rightarrow> abort + json list" where
  "highlight_lines q data =
     (if get_truthy data ''highlights'' then
        and_then (item data ''highlights'') (\<lambda>h.
        and_then (first_six h) (\<lambda>items.
          Inr ([JStr [], JStr ''### Highlights'', JStr []]
               @ map (\<lambda>i. JStr (''- '' @ py_str q i)) items)))
      else Inr [])"

definition render_markdown :: "(string \<Rightarrow> string) \<Rightarrow> dict \<Rightarrow> abort + string" where
  "render_markdown q data =
     and_then (item data ''title'') (\<lambda>t.
     let title = py_str q t in
     and_then (item data ''one_liner'') (\<lambda>one_liner.
     and_then (item data ''updated_at'') (\<lambda>updated_at.
     and_then (item data ''stack'') (\<lambda>stack.
     and_then (join_value stack) (\<lambda>stack_text.
     and_then (item data ''impact'') (\<lambda>impact.
     and_then (if get_truthy data ''tags''
               then and_then (item data ''tags'') (\<lambda>tags.
                    and_then (join_value tags) (\<lambda>tags_text.
                      Inr [JStr (''- Tags: '' @ tags_text)]))
               else Inr []) (\<lambda>tags_line.
     and_then (item data ''problem'') (\<lambda>problem.
     and_then (item data ''solution'') (\<lambda>solution.
     and_then (highlight_lines q data) (\<lambda>highlights.
       join_lines
         ([JStr (''## '' @ title), JStr [], one_liner, JStr []]
          @ screenshot_lines title data
          @ [JStr (''- Status: '' @
                (case dict_get data ''status'' of
                   None \<Rightarrow> ''active''
                 | Some v \<Rightarrow> py_str q v)),
             JStr (''- Updated: '' @ py_str q updated_at),
             JStr (''- Stack: '' @ stack_text),
             JStr (''- Impact: '' @ py_str q impact)]
          @ optional_line q ''- Demo: '' ''demo_url'' data
          @ optional_line q ''- Write-up: '' ''article_url'' data
          @ optional_line q ''- Visibility: '' ''visibility_note'' data
          @ tags_line
          @ [JStr [], JStr ''### Problem'', JStr [], problem, JStr [],
             JStr ''### Solution'', JStr [], solution]
          @ highlights
          @ [JStr []])))))))))))"

section \<open>The program\<close>

text \<open>
  The three flags, as the text of the \<^verbatim>\<open>Path\<close> built from each. The file at the input
  path is either absent, or holds text that \<^verbatim>\<open>json.loads\<close> rejects, or holds a JSON
  document. The effects of a run on the file system are recorded in the order they happen:
  \<open>MkdirParent p\<close> makes the parent directory of \<open>p\<close> with its ancestors,
  \<open>WriteJson p d\<close> writes \<^verbatim>\<open>json.dumps(d, indent=2, sort_keys=True)\<close> and a line break
  to \<open>p\<close>, and \<open>WriteText p t\<close> writes the text \<open>t\<close> to \<open>p\<close>.
\<close>

record args =
  input_path :: string
  out_json_path :: string
  out_md_path :: string

datatype input_file = NotFound | NotJson | Parsed json

datatype effect =
    MkdirParent string
  | WriteJson string dict
  | WriteText string string

record outcome =
  exit_status :: nat
  stderr :: string
  effects :: "effect list"

text \<open>
  An uncaught exception makes the interpreter print a traceback, which starts with the
  line below, and exit with status 1.
\<close>

definition TRACEBACK_HEADER :: string where
  "TRACEBACK_HEADER = ''Traceback (most recent call last):'' @ [NL]"

fun stopped :: "env \<Rightarrow> abort \<Rightarrow> effect list \<Rightarrow> outcome" where
  "stopped e (SystemExit text code) done =
     \<lparr>exit_status = code, stderr = text, effects = done\<rparr>"
| "stopped e (Uncaught x) done =
     \<lparr>exit_status = 1, stderr = TRACEBACK_HEADER @ traceback e x, effects = done\<rparr>"

text \<open>
  The first half of \<^verbatim>\<open>main\<close>, up to and including \<^verbatim>\<open>validate(raw)\<close>: it gives the
  raw record when all checks have passed.
\<close>

definition run_checks :: "env \<Rightarrow> args \<Rightarrow> input_file \<Rightarrow> abort + dict" where
  "run_checks e a f =
     (case f of
        NotFound \<Rightarrow> fail (''Input file not found: '' @ input_path a)
      | NotJson \<Rightarrow> raise JSONDecodeError
      | Parsed (JObj raw) \<Rightarrow> and_then (validate (required_order e) raw) (\<lambda>u. Inr raw)
      | Parsed v \<Rightarrow> fail ''Input must be a JSON object'')"

definition main :: "env \<Rightarrow> args \<Rightarrow> input_file \<Rightarrow> outcome" where
  "main e a f =
     (case run_checks e a f of
        Inl stop \<Rightarrow> stopped e stop []
      | Inr raw \<Rightarrow>
          let safe = sanitize e raw;
              written = [MkdirParent (out_json_path a), MkdirParent (out_md_path a),
                         WriteJson (out_json_path a) safe]
          in (case render_markdown (str_repr e) safe of
                Inl stop \<Rightarrow> stopped e stop written
              | Inr md \<Rightarrow>
                  \<lparr>exit_status = 0, stderr = [],
                   effects = written @ [WriteText (out_md_path a) md]\<rparr>))"

section \<open>Notions used to state the properties\<close>

text \<open>The four keys that the sanitizer sets itself.\<close>

definition COMPUTED_KEYS :: "string list" where
  "COMPUTED_KEYS = [''project_id'', ''generated_at'', ''updated_at'', ''source_repo'']"

text \<open>Giving every key of every object in a value a new name.\<close>

fun rename_keys :: "(string \<Rightarrow> string) \<Rightarrow> json \<Rightarrow> json" where
  "rename_keys f (JObj kvs) = JObj (map (\<lambda>(k, v). (f k, rename_keys f v)) kvs)"
| "rename_keys f (JList items) = JList (map (rename_keys f) items)"
| "rename_keys f v = v"

section \<open>Example inputs\<close>

text \<open>
  An environment, the three flags, the minimal input of the specification, and variations
  of that input. In the example environment \<^verbatim>\<open>repr\<close> of a string just puts it between
  single quotes, and the required keys are visited in the order of the source text.
\<close>

definition EXAMPLE_ENV :: env where
  "EXAMPLE_ENV =
     \<lparr>cwd = ''/work/site'', github_repository = None,
      now_isoformat = ''2026-11-04T12:24:00.123456+00:00'', now_date = ''2026-11-04'',
      str_repr = (\<lambda>s. [CHR 0x27] @ s @ [CHR 0x27]),
      required_order = REQUIRED_KEYS, traceback = (\<lambda>x. [])\<rparr>"

definition EXAMPLE_ARGS :: args where
  "EXAMPLE_ARGS =
     \<lparr>input_path = ''.showcase.json'', out_json_path = ''out/card.json'',
      out_md_path = ''out/card.md''\<rparr>"

definition MINIMAL :: dict where
  "MINIMAL =
     [(''title'', JStr ''T''), (''one_liner'', JStr ''O''), (''problem'', JStr ''P''),
      (''solution'', JStr ''S''), (''impact'', JStr ''I''), (''stack'', JList [JStr ''Go''])]"

definition WITH_REPO :: dict where
  "WITH_REPO = MINIMAL @ [(''repo'', JStr ''acme/widget''), (''internal_notes'', JStr ''draft'')]"

definition BAD_DATE :: dict where
  "BAD_DATE = MINIMAL @ [(''updated_at'', JStr ''2024-02-30'')]"

definition LEAP_DAY :: dict where
  "LEAP_DAY = MINIMAL @ [(''updated_at'', JStr ''2024-02-29'')]"

definition BASIC_DATE :: dict where
  "BASIC_DATE = MINIMAL @ [(''updated_at'', JStr ''20240229'')]"




section \<open>Basic facts\<close>

lemma and_then_Inl [simp]: "and_then (Inl a) f = Inl a"
  by (simp add: and_then_def)

lemma and_then_Inr [simp]: "and_then (Inr v) f = f v"
  by (simp add: and_then_def)

lemma fail_not_Inr [simp]: "fail m \<noteq> Inr v"
  by (simp add: fail_def)

lemma raise_not_Inr [simp]: "raise x \<noteq> Inr v"
  by (simp add: raise_def)

lemma fail_eq_iff: "(fail m = (fail m' :: abort + 'a)) \<longleftrightarrow> m = m'"
  by (simp add: fail_def)

lemma item_Some: "dict_get d k = Some v \<Longrightarrow> item d k = Inr v"
  by (simp add: item_def)

lemma item_None: "dict_get d k = None \<Longrightarrow> item d k = raise (KeyError k)"
  by (simp add: item_def)

lemma dict_keys_set: "set (dict_keys (dict_set k v d)) = insert k (set (dict_keys d))"
  by (auto simp: dict_keys_def dict_set_def update_keys)

lemma dict_keys_project:
  "set (dict_keys (concat (map (\<lambda>k. case dict_get data k of None \<Rightarrow> [] | Some v \<Rightarrow> [(k, v)]) ks)))
     \<subseteq> set ks"
  by (induction ks) (auto simp: dict_keys_def split: option.splits)

lemma dict_get_project:
  "dict_get (concat (map (\<lambda>k. case dict_get data k of None \<Rightarrow> [] | Some v \<Rightarrow> [(k, v)]) ks)) k
     = (if k \<in> set ks then dict_get data k else None)"
  by (induction ks) (auto simp: dict_get_def split: option.splits)

lemma dict_get_set: "dict_get (dict_set k v d) k' = (if k' = k then Some v else dict_get d k')"
  by (simp add: dict_get_def dict_set_def update_conv')

lemma map_of_eq_Some_fst: "map_of xs k = Some v \<Longrightarrow> k \<in> set (map fst xs)"
  by (induction xs) (auto split: if_splits)

lemma dict_get_insert:
  assumes "k' \<noteq> k"
  shows "dict_get (d1 @ (k, v) # d2) k' = dict_get (d1 @ d2) k'"
  using assms by (simp add: dict_get_def map_add_def split: option.splits)

subsection \<open>The validator\<close>

lemma missing_keys_set: "set (missing_keys data) = set REQUIRED_KEYS - set (dict_keys data)"
  by (auto simp: missing_keys_def)

lemma missing_keys_sorted: "sorted (missing_keys data)"
  by (simp add: missing_keys_def)

lemma REQUIRED_distinct: "distinct REQUIRED_KEYS"
  by (simp add: REQUIRED_KEYS_def)

lemma missing_keys_distinct: "distinct (missing_keys data)"
  by (simp add: missing_keys_def REQUIRED_distinct)

lemma missing_keys_Nil: "missing_keys d = [] \<longleftrightarrow> set REQUIRED_KEYS \<subseteq> set (dict_keys d)"
  using missing_keys_set [of d] by (metis Diff_eq_empty_iff set_empty)

lemma check_required_Cons:
  "check_required (k # ks) d =
     and_then (item d k) (\<lambda>v.
       if \<not> (if k = ''stack'' then stack_ok v else nonblank_str v)
       then fail (if k = ''stack'' then ''`stack` must be a non-empty list of strings''
                  else ''`'' @ k @ ''` must be a non-empty string'')
       else check_required ks d)"
  by simp

lemma check_required_ok:
  "check_required ks d = Inr () \<longleftrightarrow>
     (\<forall>k\<in>set ks. \<exists>v. dict_get d k = Some v \<and> (if k = ''stack'' then stack_ok v else nonblank_str v))"
proof (induction ks)
  case Nil
  show ?case by simp
next
  case (Cons k ks)
  show ?case
  proof (cases "dict_get d k")
    case None
    then show ?thesis
      unfolding check_required_Cons by (simp add: item_None raise_def)
  next
    case (Some v)
    with Cons show ?thesis
      unfolding check_required_Cons by (simp add: item_Some)
  qed
qed

lemma check_required_stop:
  "check_required ks d = Inl stop \<Longrightarrow>
     (\<exists>m. stop = SystemExit (''ERROR: '' @ m @ [NL]) 1) \<or> (\<exists>k. stop = Uncaught (KeyError k))"
proof (induction ks)
  case Nil
  then show ?case by simp
next
  case (Cons k ks)
  show ?case
  proof (cases "dict_get d k")
    case None
    with Cons.prems show ?thesis
      unfolding check_required_Cons by (auto simp: item_None raise_def)
  next
    case (Some v)
    define ok where "ok = (if k = ''stack'' then stack_ok v else nonblank_str v)"
    have step: "check_required (k # ks) d =
        (if ok then check_required ks d
         else fail (if k = ''stack'' then ''`stack` must be a non-empty list of strings''
                    else ''`'' @ k @ ''` must be a non-empty string''))"
      unfolding check_required_Cons ok_def by (simp add: item_Some Some)
    show ?thesis
    proof (cases ok)
      case True
      with step Cons show ?thesis by simp
    next
      case False
      with step Cons.prems show ?thesis by (auto simp: fail_def)
    qed
  qed
qed

lemma check_required_no_raise:
  assumes "set ks \<subseteq> set (dict_keys d)" and "check_required ks d = Inl stop"
  shows "\<exists>m. stop = SystemExit (''ERROR: '' @ m @ [NL]) 1"
proof -
  from check_required_stop [OF assms(2)] consider
    m where "stop = SystemExit (''ERROR: '' @ m @ [NL]) 1" | k where "stop = Uncaught (KeyError k)"
    by blast
  then show ?thesis
  proof cases
    case 1
    then show ?thesis by blast
  next
    case 2
    have "check_required ks d \<noteq> Inl (Uncaught x)" for x
      using assms(1)
    proof (induction ks)
      case Nil
      show ?case by simp
    next
      case (Cons k ks)
      then have "k \<in> set (map fst d)"
        by (simp add: dict_keys_def)
      then obtain v where v: "dict_get d k = Some v"
        unfolding dict_get_def by (metis domD dom_map_of_conv_image_fst list.set_map)
      define ok where "ok = (if k = ''stack'' then stack_ok v else nonblank_str v)"
      have step: "check_required (k # ks) d =
        (if ok then check_required ks d
         else fail (if k = ''stack'' then ''`stack` must be a non-empty list of strings''
                    else ''`'' @ k @ ''` must be a non-empty string''))"
        unfolding check_required_Cons ok_def by (simp add: item_Some v)
      from Cons have "check_required ks d \<noteq> Inl (Uncaught x)"
        by simp
      with step show ?case
        by (simp add: fail_def)
    qed
    with assms(2) 2 show ?thesis
      by simp
  qed
qed

lemma check_required_not_updated_at:
  "check_required ks d \<noteq> fail UPDATED_AT_MESSAGE"
proof (induction ks)
  case Nil
  show ?case by (simp add: fail_def)
next
  case (Cons k ks)
  show ?case
  proof (cases "dict_get d k")
    case None
    then show ?thesis
      unfolding check_required_Cons by (simp add: item_None raise_def fail_def)
  next
    case (Some v)
    define ok where "ok = (if k = ''stack'' then stack_ok v else nonblank_str v)"
    define m where "m = (if k = ''stack'' then ''`stack` must be a non-empty list of strings''
                    else ''`'' @ k @ ''` must be a non-empty string'')"
    have step: "check_required (k # ks) d = (if ok then check_required ks d else fail m)"
      unfolding check_required_Cons ok_def m_def by (simp add: item_Some Some)
    have "last m \<noteq> CHR '')''"
      by (simp add: m_def)
    moreover have "last UPDATED_AT_MESSAGE = CHR '')''"
      by (simp add: UPDATED_AT_MESSAGE_def)
    ultimately have "m \<noteq> UPDATED_AT_MESSAGE"
      by auto
    with step Cons show ?thesis
      by (simp add: fail_eq_iff)
  qed
qed

lemma validate_ok:
  "validate ks d = Inr () \<longleftrightarrow>
     missing_keys d = [] \<and> check_required ks d = Inr ()
     \<and> \<not> present_but_not iso_date_str ''updated_at'' d
     \<and> \<not> present_but_not str_list ''tags'' d
     \<and> \<not> present_but_not str_list ''highlights'' d
     \<and> \<not> list_ex sensitive (walk_strings (JObj d))"
  by (cases "check_required ks d") (auto simp: validate_def Let_def)

lemma validate_stop:
  assumes "validate ks d = Inl stop"
  shows "(\<exists>m. stop = SystemExit (''ERROR: '' @ m @ [NL]) 1) \<or> (\<exists>k. stop = Uncaught (KeyError k))"
proof (cases "check_required ks d")
  case (Inl s)
  with assms have "stop = s \<or> (\<exists>m. stop = SystemExit (''ERROR: '' @ m @ [NL]) 1)"
    by (auto simp: validate_def Let_def fail_def split: if_splits)
  with check_required_stop [OF Inl] show ?thesis by auto
next
  case (Inr u)
  with assms show ?thesis
    by (auto simp: validate_def Let_def fail_def split: if_splits)
qed

lemma validate_no_raise:
  assumes "set ks \<subseteq> set REQUIRED_KEYS" and "validate ks d = Inl stop"
  shows "\<exists>m. stop = SystemExit (''ERROR: '' @ m @ [NL]) 1"
proof (cases "missing_keys d = []")
  case False
  with assms(2) show ?thesis
    by (auto simp: validate_def Let_def fail_def)
next
  case True
  with assms(1) have sub: "set ks \<subseteq> set (dict_keys d)"
    by (auto simp: missing_keys_Nil)
  show ?thesis
  proof (cases "check_required ks d")
    case (Inl s)
    with True assms(2) have "stop = s"
      by (simp add: validate_def Let_def)
    with check_required_no_raise [OF sub Inl] show ?thesis
      by simp
  next
    case (Inr u)
    with True assms(2) show ?thesis
      by (auto simp: validate_def Let_def fail_def split: if_splits)
  qed
qed

lemma validate_any_order:
  assumes "set ks = set ks'" and "validate ks' d = Inr ()"
  shows "validate ks d = Inr ()"
  using assms by (simp add: validate_ok check_required_ok)

lemma present_but_not_Some: "dict_get d k = Some v \<Longrightarrow> present_but_not p k d = (\<not> p v)"
  by (simp add: present_but_not_def)

lemma present_but_not_insert:
  assumes "k' \<noteq> k"
  shows "present_but_not p k' (d1 @ (k, v) # d2) = present_but_not p k' (d1 @ d2)"
  by (simp add: present_but_not_def dict_get_insert [OF assms])

lemma check_required_insert:
  assumes "check_required ks (d1 @ d2) = Inr ()" and "k \<notin> set (dict_keys (d1 @ d2))"
  shows "check_required ks (d1 @ (k, v) # d2) = Inr ()"
proof -
  have "dict_get (d1 @ (k, v) # d2) k' = Some x" if "dict_get (d1 @ d2) k' = Some x" for k' x
  proof -
    from that have "k' \<in> set (dict_keys (d1 @ d2))"
      unfolding dict_get_def dict_keys_def by (rule map_of_eq_Some_fst)
    with assms(2) have "k' \<noteq> k" by auto
    with that show ?thesis by (simp add: dict_get_insert)
  qed
  with assms(1) show ?thesis
    unfolding check_required_ok by blast
qed

lemma validate_updated_at:
  assumes "dict_get data ''updated_at'' = Some v"
  shows "validate ks data = fail UPDATED_AT_MESSAGE \<longleftrightarrow>
           missing_keys data = [] \<and> check_required ks data = Inr () \<and> \<not> iso_date_str v"
proof (cases "missing_keys data = []")
  case False
  then have "validate ks data = fail (''Missing required keys: '' @ join '', '' (missing_keys data))"
    by (simp add: validate_def Let_def)
  moreover have "''Missing required keys: '' @ join '', '' (missing_keys data) \<noteq> UPDATED_AT_MESSAGE"
    by (simp add: UPDATED_AT_MESSAGE_def)
  ultimately show ?thesis
    using False by (simp add: fail_eq_iff)
next
  case True
  show ?thesis
  proof (cases "check_required ks data")
    case (Inl stop)
    with True have "validate ks data = check_required ks data"
      by (simp add: validate_def Let_def)
    with check_required_not_updated_at [of ks data] Inl show ?thesis
      by simp
  next
    case (Inr u)
    with True assms show ?thesis
      by (simp add: validate_def Let_def present_but_not_Some UPDATED_AT_MESSAGE_def
          SENSITIVE_MESSAGE_def fail_def)
  qed
qed

text \<open>What validation establishes about the fields that the renderer reads.\<close>

lemma nonblank_str_is: "nonblank_str v \<Longrightarrow> \<exists>s. v = JStr s"
  by (cases v) simp_all

lemma nonblank_is_str: "nonblank_str v \<Longrightarrow> is_str v"
  by (cases v) simp_all

lemma str_list_is: "str_list v \<longleftrightarrow> (\<exists>items. v = JList items \<and> list_all is_str items)"
  by (cases v) simp_all

lemma stack_ok_is: "stack_ok v \<Longrightarrow> \<exists>items. v = JList items \<and> list_all is_str items"
  by (cases v) (auto simp: list_all_iff intro: nonblank_is_str)

lemma required_keys:
  "''title'' \<in> set REQUIRED_KEYS" "''one_liner'' \<in> set REQUIRED_KEYS"
  "''problem'' \<in> set REQUIRED_KEYS" "''solution'' \<in> set REQUIRED_KEYS"
  "''impact'' \<in> set REQUIRED_KEYS" "''stack'' \<in> set REQUIRED_KEYS"
  by (simp_all add: REQUIRED_KEYS_def)

lemma validated_string:
  assumes "validate ks raw = Inr ()" and "set REQUIRED_KEYS \<subseteq> set ks"
    and "k \<in> set REQUIRED_KEYS" and "k \<noteq> ''stack''"
  shows "\<exists>s. dict_get raw k = Some (JStr s)"
proof -
  from assms(1) have "check_required ks raw = Inr ()"
    by (simp add: validate_ok)
  moreover from assms(2,3) have "k \<in> set ks"
    by auto
  ultimately obtain v where "dict_get raw k = Some v" and "nonblank_str v"
    using assms(4) unfolding check_required_ok by force
  then show ?thesis
    by (auto dest: nonblank_str_is)
qed

lemma validated_stack:
  assumes "validate ks raw = Inr ()" and "set REQUIRED_KEYS \<subseteq> set ks"
  shows "\<exists>items. dict_get raw ''stack'' = Some (JList items) \<and> list_all is_str items"
proof -
  from assms(1) have "check_required ks raw = Inr ()"
    by (simp add: validate_ok)
  moreover from assms(2) have "''stack'' \<in> set ks"
    using required_keys(6) by auto
  ultimately obtain v where "dict_get raw ''stack'' = Some v" and "stack_ok v"
    unfolding check_required_ok by force
  then show ?thesis
    by (auto dest: stack_ok_is)
qed

lemma validated_tags:
  assumes "validate ks raw = Inr ()"
  shows "dict_get raw ''tags'' = None
         \<or> (\<exists>items. dict_get raw ''tags'' = Some (JList items) \<and> list_all is_str items)"
proof -
  from assms have "\<not> present_but_not str_list ''tags'' raw"
    by (simp add: validate_ok)
  then show ?thesis
    by (auto simp: present_but_not_def str_list_is split: option.splits)
qed

lemma validated_highlights:
  assumes "validate ks raw = Inr ()"
  shows "dict_get raw ''highlights'' = None
         \<or> (\<exists>items. dict_get raw ''highlights'' = Some (JList items) \<and> list_all is_str items)"
proof -
  from assms have "\<not> present_but_not str_list ''highlights'' raw"
    by (simp add: validate_ok)
  then show ?thesis
    by (auto simp: present_but_not_def str_list_is split: option.splits)
qed

subsection \<open>The sanitizer\<close>

lemma sanitize_keys:
  "set (dict_keys (sanitize e data))
     \<subseteq> set ALLOWED_KEYS \<union> {''project_id'', ''generated_at'', ''updated_at'', ''source_repo''}"
  using dict_keys_project [of data ALLOWED_KEYS]
  by (auto simp: sanitize_def Let_def dict_keys_set split: option.splits)

lemma computed_not_allowed:
  "''project_id'' \<notin> set ALLOWED_KEYS" "''generated_at'' \<notin> set ALLOWED_KEYS"
  "''source_repo'' \<notin> set ALLOWED_KEYS" "''updated_at'' \<in> set ALLOWED_KEYS"
  by (simp_all add: ALLOWED_KEYS_def)

lemma allowed_keys:
  "''title'' \<in> set ALLOWED_KEYS" "''one_liner'' \<in> set ALLOWED_KEYS"
  "''problem'' \<in> set ALLOWED_KEYS" "''solution'' \<in> set ALLOWED_KEYS"
  "''impact'' \<in> set ALLOWED_KEYS" "''stack'' \<in> set ALLOWED_KEYS"
  "''tags'' \<in> set ALLOWED_KEYS" "''highlights'' \<in> set ALLOWED_KEYS"
  by (simp_all add: ALLOWED_KEYS_def)

lemma not_computed:
  "''title'' \<notin> set COMPUTED_KEYS" "''one_liner'' \<notin> set COMPUTED_KEYS"
  "''problem'' \<notin> set COMPUTED_KEYS" "''solution'' \<notin> set COMPUTED_KEYS"
  "''impact'' \<notin> set COMPUTED_KEYS" "''stack'' \<notin> set COMPUTED_KEYS"
  "''tags'' \<notin> set COMPUTED_KEYS" "''highlights'' \<notin> set COMPUTED_KEYS"
  by (simp_all add: COMPUTED_KEYS_def)

lemma sanitize_get_other:
  assumes "k \<notin> set COMPUTED_KEYS"
  shows "dict_get (sanitize e d) k = (if k \<in> set ALLOWED_KEYS then dict_get d k else None)"
proof -
  from assms have "k \<noteq> ''project_id''" "k \<noteq> ''generated_at''" "k \<noteq> ''updated_at''"
    "k \<noteq> ''source_repo''"
    by (auto simp: COMPUTED_KEYS_def)
  then show ?thesis
    by (cases "github_repository e")
       (simp_all add: sanitize_def Let_def dict_get_set dict_get_project)
qed

lemma sanitize_keeps:
  assumes "k \<in> set ALLOWED_KEYS" and "k \<notin> set COMPUTED_KEYS"
  shows "dict_get (sanitize e d) k = dict_get d k"
  using assms by (simp add: sanitize_get_other)

lemma sanitize_get_updated_at:
  "dict_get (sanitize e d) ''updated_at'' =
     Some (case dict_get d ''updated_at'' of None \<Rightarrow> JStr (now_date e) | Some v \<Rightarrow> v)"
  by (cases "github_repository e")
     (simp_all add: sanitize_def Let_def dict_get_set dict_get_project computed_not_allowed)

lemma sanitize_get_source_repo:
  "dict_get (sanitize e d) ''source_repo'' =
     (case github_repository e of
        None \<Rightarrow> None
      | Some r \<Rightarrow> if r \<noteq> [] then Some (JStr r) else None)"
  by (cases "github_repository e")
     (simp_all add: sanitize_def Let_def dict_get_set dict_get_project computed_not_allowed)

lemma sanitize_get_generated_at:
  "dict_get (sanitize e d) ''generated_at'' =
     Some (JStr (replace ''+00:00'' ''Z'' (now_isoformat e)))"
  by (cases "github_repository e")
     (simp_all add: sanitize_def Let_def dict_get_set dict_get_project computed_not_allowed)

lemma sanitize_get_project_id:
  "dict_get (sanitize e d) ''project_id'' =
     Some (JStr
       (let repo = (if get_truthy d ''repo''
                    then path_name (py_str (str_repr e)
                           (case dict_get d ''repo'' of None \<Rightarrow> JStr [] | Some v \<Rightarrow> v))
                    else path_name (cwd e))
        in case github_repository e of
             None \<Rightarrow> repo
           | Some r \<Rightarrow> if r \<noteq> [] then last (split (CHR ''/'') r) else repo))"
  by (cases "github_repository e")
     (simp_all add: sanitize_def Let_def dict_get_set dict_get_project computed_not_allowed)

lemma sanitize_drops_repo: "\<not> get_truthy (sanitize e d) ''repo''"
proof -
  have "''repo'' \<notin> set COMPUTED_KEYS" and "''repo'' \<notin> set ALLOWED_KEYS"
    by (simp_all add: COMPUTED_KEYS_def ALLOWED_KEYS_def)
  then have "dict_get (sanitize e d) ''repo'' = None"
    by (simp add: sanitize_get_other)
  then show ?thesis
    by (simp add: get_truthy_def)
qed

lemma sanitize_minimal:
  assumes "github_repository e = None"
  shows "sanitize e MINIMAL =
           MINIMAL @ [(''project_id'', JStr (path_name (cwd e))),
                      (''generated_at'', JStr (replace ''+00:00'' ''Z'' (now_isoformat e))),
                      (''updated_at'', JStr (now_date e))]"
  using assms
  by (simp add: sanitize_def MINIMAL_def get_truthy_def dict_get_def dict_set_def
        ALLOWED_KEYS_def Let_def)

subsection \<open>The renderer\<close>

lemma optional_line_strs: "list_all is_str (optional_line q label k d)"
  by (simp add: optional_line_def split: option.splits)

lemma screenshot_lines_strs: "list_all is_str (screenshot_lines t d)"
  by (simp add: screenshot_lines_def split: option.splits json.splits)

lemma tags_line_strs:
  assumes "dict_get d ''tags'' = None
         \<or> (\<exists>items. dict_get d ''tags'' = Some (JList items) \<and> list_all is_str items)"
  shows "\<exists>line. (if get_truthy d ''tags''
               then and_then (item d ''tags'') (\<lambda>tags.
                    and_then (join_value tags) (\<lambda>tags_text.
                      Inr [JStr (''- Tags: '' @ tags_text)]))
               else Inr []) = Inr line \<and> list_all is_str line"
  using assms by (auto simp: get_truthy_def item_def)


lemma highlight_lines_ok:
  assumes "dict_get d ''highlights'' = None
         \<or> (\<exists>items. dict_get d ''highlights'' = Some (JList items) \<and> list_all is_str items)"
  shows "\<exists>lines. highlight_lines q d = Inr lines \<and> list_all is_str lines"
  using assms
  by (auto simp: highlight_lines_def get_truthy_def item_def list_all_iff)




lemma render_minimal:
  "render_markdown q
     (MINIMAL @ [(''project_id'', JStr p), (''generated_at'', JStr g), (''updated_at'', JStr u)]) =
   Inr (join [NL]
          [''## T'', [], ''O'', [], ''- Status: active'', ''- Updated: '' @ u, ''- Stack: Go'',
           ''- Impact: I'', [], ''### Problem'', [], ''P'', [], ''### Solution'', [], ''S'', []])"
  by (simp add: render_markdown_def MINIMAL_def item_def dict_get_def get_truthy_def
        join_lines_def screenshot_lines_def optional_line_def highlight_lines_def Let_def)

text \<open>
  On a record that has passed validation, the renderer raises nothing before it reaches
  the highlights, and all the lines it has made by then are strings.
\<close>

lemma render_validated:
  assumes "validate ks raw = Inr ()" and "set REQUIRED_KEYS \<subseteq> set ks"
  obtains head where "list_all is_str head"
    and "render_markdown q (sanitize e raw) =
           and_then (highlight_lines q (sanitize e raw)) (\<lambda>highlights.
             join_lines (head @ highlights @ [JStr []]))"
proof -
  let ?R = "sanitize e raw"
  obtain title where t: "dict_get ?R ''title'' = Some (JStr title)"
    using validated_string [OF assms(1,2) required_keys(1)]
    by (auto simp: sanitize_keeps allowed_keys not_computed)
  obtain one_liner where o: "dict_get ?R ''one_liner'' = Some (JStr one_liner)"
    using validated_string [OF assms(1,2) required_keys(2)]
    by (auto simp: sanitize_keeps allowed_keys not_computed)
  obtain problem where p: "dict_get ?R ''problem'' = Some (JStr problem)"
    using validated_string [OF assms(1,2) required_keys(3)]
    by (auto simp: sanitize_keeps allowed_keys not_computed)
  obtain solution where s: "dict_get ?R ''solution'' = Some (JStr solution)"
    using validated_string [OF assms(1,2) required_keys(4)]
    by (auto simp: sanitize_keeps allowed_keys not_computed)
  obtain impact where i: "dict_get ?R ''impact'' = Some (JStr impact)"
    using validated_string [OF assms(1,2) required_keys(5)]
    by (auto simp: sanitize_keeps allowed_keys not_computed)
  obtain stack where k: "dict_get ?R ''stack'' = Some (JList stack)" and ks: "list_all is_str stack"
    using validated_stack [OF assms(1,2)]
    by (auto simp: sanitize_keeps allowed_keys not_computed)
  obtain updated where u: "dict_get ?R ''updated_at'' = Some updated"
    by (simp add: sanitize_get_updated_at)
  have "dict_get ?R ''tags'' = None
         \<or> (\<exists>items. dict_get ?R ''tags'' = Some (JList items) \<and> list_all is_str items)"
    using validated_tags [OF assms(1)]
    by (simp add: sanitize_keeps allowed_keys not_computed)
  from tags_line_strs [OF this] obtain tags_line
    where g: "(if get_truthy ?R ''tags''
               then and_then (item ?R ''tags'') (\<lambda>tags.
                    and_then (join_value tags) (\<lambda>tags_text.
                      Inr [JStr (''- Tags: '' @ tags_text)]))
               else Inr []) = Inr tags_line"
      and gs: "list_all is_str tags_line"
    by blast
  define head where "head =
     [JStr (''## '' @ title), JStr [], JStr one_liner, JStr []]
     @ screenshot_lines title ?R
     @ [JStr (''- Status: '' @
           (case dict_get ?R ''status'' of None \<Rightarrow> ''active'' | Some v \<Rightarrow> py_str q v)),
        JStr (''- Updated: '' @ py_str q updated),
        JStr (''- Stack: '' @ join '', '' (map the_str stack)),
        JStr (''- Impact: '' @ impact)]
     @ optional_line q ''- Demo: '' ''demo_url'' ?R
     @ optional_line q ''- Write-up: '' ''article_url'' ?R
     @ optional_line q ''- Visibility: '' ''visibility_note'' ?R
     @ tags_line
     @ [JStr [], JStr ''### Problem'', JStr [], JStr problem, JStr [],
        JStr ''### Solution'', JStr [], JStr solution]"
  have "list_all is_str head"
    by (simp add: head_def optional_line_strs screenshot_lines_strs gs)
  moreover have "render_markdown q ?R =
           and_then (highlight_lines q ?R) (\<lambda>highlights.
             join_lines (head @ highlights @ [JStr []]))"
    unfolding render_markdown_def g
    by (simp add: item_Some t o p s i k u ks head_def)
  ultimately show ?thesis
    by (rule that)
qed

lemma render_total:
  assumes "validate ks raw = Inr ()" and "set REQUIRED_KEYS \<subseteq> set ks"
  shows "\<exists>md. render_markdown q (sanitize e raw) = Inr md"
proof -
  from render_validated [OF assms, of q e] obtain head
    where hs: "list_all is_str head"
      and r: "render_markdown q (sanitize e raw) =
           and_then (highlight_lines q (sanitize e raw)) (\<lambda>highlights.
             join_lines (head @ highlights @ [JStr []]))"
    by blast
  have "dict_get (sanitize e raw) ''highlights'' = None
         \<or> (\<exists>items. dict_get (sanitize e raw) ''highlights'' = Some (JList items)
               \<and> list_all is_str items)"
    using validated_highlights [OF assms(1)]
    by (simp add: sanitize_keeps allowed_keys not_computed)
  from highlight_lines_ok [OF this, of q] obtain lines
    where "highlight_lines q (sanitize e raw) = Inr lines" and "list_all is_str lines"
    by blast
  with hs r show ?thesis
    by (simp add: join_lines_def)
qed

subsection \<open>The program\<close>

lemma stopped_effects: "effects (stopped e stop done) = done"
  by (cases stop) simp_all

lemma stopped_status:
  "(\<exists>m. stop = SystemExit (''ERROR: '' @ m @ [NL]) 1) \<or> (\<exists>k. stop = Uncaught k)
     \<Longrightarrow> exit_status (stopped e stop done) = 1"
  by auto

lemma valid_run_succeeds:
  assumes "validate (required_order e) raw = Inr ()"
    and "set REQUIRED_KEYS \<subseteq> set (required_order e)"
  shows "\<exists>md. render_markdown (str_repr e) (sanitize e raw) = Inr md
           \<and> main e a (Parsed (JObj raw)) =
               \<lparr>exit_status = 0, stderr = [],
                effects = [MkdirParent (out_json_path a), MkdirParent (out_md_path a),
                           WriteJson (out_json_path a) (sanitize e raw),
                           WriteText (out_md_path a) md]\<rparr>"
proof -
  from render_total [OF assms] obtain md
    where "render_markdown (str_repr e) (sanitize e raw) = Inr md"
    by blast
  with assms(1) show ?thesis
    by (simp add: main_def run_checks_def Let_def)
qed

text \<open>
  Every run other than one on unparseable text ends as the specification says: with
  status 0 and a silent error stream, or with status 1, a message that begins with
  \<^verbatim>\<open>ERROR: \<close> and nothing written.
\<close>

lemma other_runs_end_as_specified:
  assumes "set (required_order e) = set REQUIRED_KEYS" and "f \<noteq> NotJson"
  shows "(exit_status (main e a f) = 0 \<and> stderr (main e a f) = [])
         \<or> (exit_status (main e a f) = 1 \<and> prefix ''ERROR: '' (stderr (main e a f))
             \<and> effects (main e a f) = [])"
proof (cases f)
  case NotFound
  then show ?thesis
    by (simp add: main_def run_checks_def fail_def)
next
  case NotJson
  with assms(2) show ?thesis
    by simp
next
  case (Parsed v)
  show ?thesis
  proof (cases "\<exists>raw. v = JObj raw")
    case False
    with Parsed show ?thesis
      by (cases v) (simp_all add: main_def run_checks_def fail_def)
  next
    case True
    then obtain raw where raw: "v = JObj raw"
      by blast
    show ?thesis
    proof (cases "validate (required_order e) raw")
      case (Inl stop)
      with assms(1) obtain m where "stop = SystemExit (''ERROR: '' @ m @ [NL]) 1"
        using validate_no_raise [of "required_order e" raw stop] by auto
      with Inl Parsed raw show ?thesis
        by (simp add: main_def run_checks_def)
    next
      case (Inr u)
      with valid_run_succeeds [of e raw a] assms(1) Parsed raw show ?thesis
        by auto
    qed
  qed
qed

section \<open>The sanitizer keeps to the allowlist\<close>

text \<open>
  Claim C1. Whatever the raw record and the environment, every key of the record that
  \<open>sanitize\<close> returns is a key of the allowlist or one of the four computed keys
  \<^verbatim>\<open>project_id\<close>, \<^verbatim>\<open>generated_at\<close>, \<^verbatim>\<open>updated_at\<close>, \<^verbatim>\<open>source_repo\<close>. So the key
  \<^verbatim>\<open>repo\<close> is never in the output, and neither is any key \<open>k\<close> outside those two sets.
\<close>

theorem sanitize_only_allowlisted_keys:
  "set (dict_keys (sanitize e data)) \<subseteq> set ALLOWED_KEYS \<union> set COMPUTED_KEYS
   \<and> ''repo'' \<notin> set (dict_keys (sanitize e data))
   \<and> (k \<notin> set ALLOWED_KEYS \<union> set COMPUTED_KEYS \<longrightarrow> k \<notin> set (dict_keys (sanitize e data)))"
proof -
  have sub: "set (dict_keys (sanitize e data)) \<subseteq> set ALLOWED_KEYS \<union> set COMPUTED_KEYS"
    using sanitize_keys [of e data] by (simp add: COMPUTED_KEYS_def)
  have "''repo'' \<notin> set ALLOWED_KEYS \<union> set COMPUTED_KEYS"
    by (simp add: ALLOWED_KEYS_def COMPUTED_KEYS_def)
  with sub show ?thesis
    by blast
qed

theorem sanitize_only_allowlisted_keys_witness:
  "''repo'' \<in> set (dict_keys WITH_REPO) \<and> ''internal_notes'' \<in> set (dict_keys WITH_REPO)
   \<and> ''repo'' \<notin> set (dict_keys (sanitize EXAMPLE_ENV WITH_REPO))
   \<and> ''internal_notes'' \<notin> set (dict_keys (sanitize EXAMPLE_ENV WITH_REPO))"
proof -
  have "''internal_notes'' \<notin> set ALLOWED_KEYS \<union> set COMPUTED_KEYS"
    by (simp add: ALLOWED_KEYS_def COMPUTED_KEYS_def)
  with sanitize_only_allowlisted_keys [of EXAMPLE_ENV WITH_REPO "''internal_notes''"]
  show ?thesis
    by (simp add: WITH_REPO_def MINIMAL_def dict_keys_def)
qed

section \<open>Missing required keys\<close>

text \<open>
  Claim C2. When a required key \<open>k\<close> is absent from the input object, the run ends with
  exit status 1 and nothing written, and the error stream holds
  \<^verbatim>\<open>ERROR: Missing required keys: \<close> followed by the comma-separated list
  \<open>missing_keys data\<close>. That list holds exactly the required keys that are absent, each
  once, in ascending order.
\<close>

theorem missing_keys_reported:
  assumes "k \<in> set REQUIRED_KEYS" and "k \<notin> set (dict_keys data)"
  shows "main e a (Parsed (JObj data)) =
           \<lparr>exit_status = 1,
            stderr = ''ERROR: Missing required keys: '' @ join '', '' (missing_keys data) @ [NL],
            effects = []\<rparr>
         \<and> set (missing_keys data) = set REQUIRED_KEYS - set (dict_keys data)
         \<and> sorted (missing_keys data) \<and> distinct (missing_keys data)"
proof -
  from assms have "k \<in> set (missing_keys data)"
    by (simp add: missing_keys_set)
  then have "missing_keys data \<noteq> []"
    by auto
  then have "validate (required_order e) data =
      fail (''Missing required keys: '' @ join '', '' (missing_keys data))"
    by (simp add: validate_def Let_def)
  then have "main e a (Parsed (JObj data)) =
           \<lparr>exit_status = 1,
            stderr = ''ERROR: Missing required keys: '' @ join '', '' (missing_keys data) @ [NL],
            effects = []\<rparr>"
    by (simp add: main_def run_checks_def fail_def)
  then show ?thesis
    by (simp add: missing_keys_set missing_keys_sorted missing_keys_distinct)
qed

theorem missing_keys_reported_witness:
  "''title'' \<notin> set (dict_keys [(''stack'', JNull), (''impact'', JStr ''I'')])
   \<and> main EXAMPLE_ENV EXAMPLE_ARGS (Parsed (JObj [(''stack'', JNull), (''impact'', JStr ''I'')])) =
       \<lparr>exit_status = 1,
        stderr = ''ERROR: Missing required keys: one_liner, problem, solution, title'' @ [NL],
        effects = []\<rparr>"
proof -
  have k: "''title'' \<in> set REQUIRED_KEYS"
    by (simp add: REQUIRED_KEYS_def)
  have n: "''title'' \<notin> set (dict_keys [(''stack'', JNull), (''impact'', JStr ''I'')])"
    by (simp add: dict_keys_def)
  have m: "missing_keys [(''stack'', JNull), (''impact'', JStr ''I'')] =
             [''one_liner'', ''problem'', ''solution'', ''title'']"
    by code_simp
  from missing_keys_reported [OF k n, of EXAMPLE_ENV EXAMPLE_ARGS] n show ?thesis
    by (simp add: m)
qed

section \<open>Input that is not JSON\<close>

text \<open>
  Claim C3, at the input where it fails. When the text of the input file is not JSON,
  \<^verbatim>\<open>json.loads\<close> raises and nothing in \<^verbatim>\<open>main\<close> catches the exception: the run ends
  with status 1, but the error stream holds a traceback and does not begin with
  \<^verbatim>\<open>ERROR: \<close>.
\<close>

theorem unparseable_input_gets_traceback:
  "main e a NotJson =
     \<lparr>exit_status = 1, stderr = TRACEBACK_HEADER @ traceback e JSONDecodeError, effects = []\<rparr>
   \<and> \<not> prefix ''ERROR: '' (stderr (main e a NotJson))"
  by (simp add: main_def run_checks_def raise_def TRACEBACK_HEADER_def)

section \<open>No output before validation has passed\<close>

text \<open>
  Claim C4. When validation of the input object stops the run, the run has had no effect
  on the file system (no directory made, no file written) and its exit status is 1. And a
  run that has any effect on the file system was given a JSON object on which validation
  passed in full.
\<close>

theorem no_output_unless_validated:
  "(validate (required_order e) raw = Inl stop \<longrightarrow>
      effects (main e a (Parsed (JObj raw))) = []
      \<and> exit_status (main e a (Parsed (JObj raw))) = 1)
   \<and> (effects (main e a f) \<noteq> [] \<longrightarrow>
        (\<exists>data. f = Parsed (JObj data) \<and> validate (required_order e) data = Inr ()))"
proof (intro conjI impI)
  assume v: "validate (required_order e) raw = Inl stop"
  then have m: "main e a (Parsed (JObj raw)) = stopped e stop []"
    by (simp add: main_def run_checks_def)
  show "effects (main e a (Parsed (JObj raw))) = []"
    by (simp add: m stopped_effects)
  from validate_stop [OF v] have "exit_status (stopped e stop []) = 1"
    by (intro stopped_status) auto
  then show "exit_status (main e a (Parsed (JObj raw))) = 1"
    by (simp add: m)
next
  assume eff: "effects (main e a f) \<noteq> []"
  show "\<exists>data. f = Parsed (JObj data) \<and> validate (required_order e) data = Inr ()"
  proof (cases "run_checks e a f")
    case (Inl stop)
    then have "effects (main e a f) = []"
      by (simp add: main_def stopped_effects)
    with eff show ?thesis by simp
  next
    case (Inr d)
    then show ?thesis
      by (cases f; cases "validate (required_order e) d")
         (auto simp: run_checks_def fail_def raise_def and_then_def
               split: json.splits sum.splits)
  qed
qed

theorem no_output_unless_validated_witness:
  "validate (required_order EXAMPLE_ENV) BAD_DATE =
     Inl (SystemExit (''ERROR: `updated_at` must be an ISO date (YYYY-MM-DD)'' @ [NL]) 1)
   \<and> effects (main EXAMPLE_ENV EXAMPLE_ARGS (Parsed (JObj BAD_DATE))) = []
   \<and> exit_status (main EXAMPLE_ENV EXAMPLE_ARGS (Parsed (JObj BAD_DATE))) = 1
   \<and> effects (main EXAMPLE_ENV EXAMPLE_ARGS (Parsed (JObj MINIMAL))) \<noteq> []
   \<and> validate (required_order EXAMPLE_ENV) MINIMAL = Inr ()"
proof -
  have bad: "validate (required_order EXAMPLE_ENV) BAD_DATE =
     Inl (SystemExit (''ERROR: `updated_at` must be an ISO date (YYYY-MM-DD)'' @ [NL]) 1)"
    by code_simp
  have good: "effects (main EXAMPLE_ENV EXAMPLE_ARGS (Parsed (JObj MINIMAL))) \<noteq> []"
    by code_simp
  from no_output_unless_validated
         [of EXAMPLE_ENV BAD_DATE
             "SystemExit (''ERROR: `updated_at` must be an ISO date (YYYY-MM-DD)'' @ [NL]) 1"
             EXAMPLE_ARGS "Parsed (JObj MINIMAL)"]
       bad good
  show ?thesis
    by auto
qed

section \<open>The check of \<^verbatim>\<open>updated_at\<close>\<close>

lemma parse_digits_4:
  "parse_digits 4 0 (a # b # c # d # s) =
     (if is_digit a \<and> is_digit b \<and> is_digit c \<and> is_digit d
      then Some (1000 * digit_val a + 100 * digit_val b + 10 * digit_val c + digit_val d, s)
      else None)"
  by (simp add: eval_nat_numeral)

lemma parse_digits_2:
  "parse_digits 2 0 (a # b # s) =
     (if is_digit a \<and> is_digit b then Some (10 * digit_val a + digit_val b, s) else None)"
  by (simp add: eval_nat_numeral)

lemma W_not_digit: "\<not> is_digit (CHR ''W'')"
  by (simp add: is_digit_def)

lemma dash_not_digit: "\<not> is_digit (CHR ''-'')"
  by (simp add: is_digit_def)

lemma extended_form:
  "is_iso_date [y1, y2, y3, y4, CHR ''-'', m1, m2, CHR ''-'', d1, d2] \<longleftrightarrow>
     list_all is_digit [y1, y2, y3, y4, m1, m2, d1, d2]
     \<and> valid_ymd (1000 * digit_val y1 + 100 * digit_val y2 + 10 * digit_val y3 + digit_val y4)
          (10 * digit_val m1 + digit_val m2) (10 * digit_val d1 + digit_val d2)"
proof (cases "m1 = CHR ''W''")
  case True
  have "parse_digits 2 0 [m2, CHR ''-'', d1, d2] = None"
    by (simp add: parse_digits_2 dash_not_digit)
  with True show ?thesis
    by (simp add: is_iso_date_def fromisoformat_ok_def parse_digits_4 starts_with_def
          parse_week_date_def W_not_digit)
next
  case False
  then show ?thesis
    by (auto simp: is_iso_date_def fromisoformat_ok_def parse_digits_4 parse_digits_2
          starts_with_def parse_calendar_date_def Let_def)
qed

lemma iso_date_str_iff: "iso_date_str v \<longleftrightarrow> (\<exists>s. v = JStr s \<and> is_iso_date s)"
  by (cases v) simp_all

text \<open>
  Claim C5, as the code has it. Let \<^verbatim>\<open>updated_at\<close> be present with value \<open>v\<close>. The check
  accepts \<open>v\<close> exactly when \<open>v\<close> is a string that \<^verbatim>\<open>date.fromisoformat\<close> reads. When it
  does not accept \<open>v\<close>, validation fails; and validation fails with the \<^verbatim>\<open>updated_at\<close>
  message exactly when the checks made before this one (required keys present, required
  fields well-formed) pass and \<open>v\<close> is not accepted. A string written YYYY-MM-DD is
  accepted exactly when its eight other characters are digits and name a day that exists,
  in a year from 1 to 9999: \<^verbatim>\<open>2024-02-30\<close> is rejected and \<^verbatim>\<open>2024-02-29\<close> is accepted.
\<close>

theorem updated_at_validation:
  "(dict_get data ''updated_at'' = Some v \<longrightarrow>
      (validate ks data = fail UPDATED_AT_MESSAGE \<longleftrightarrow>
         missing_keys data = [] \<and> check_required ks data = Inr () \<and> \<not> iso_date_str v)
      \<and> (\<not> iso_date_str v \<longrightarrow> validate ks data \<noteq> Inr ()))
   \<and> (iso_date_str v \<longleftrightarrow> (\<exists>s. v = JStr s \<and> is_iso_date s))
   \<and> (is_iso_date [y1, y2, y3, y4, CHR ''-'', m1, m2, CHR ''-'', d1, d2] \<longleftrightarrow>
        list_all is_digit [y1, y2, y3, y4, m1, m2, d1, d2]
        \<and> valid_ymd
             (1000 * digit_val y1 + 100 * digit_val y2 + 10 * digit_val y3 + digit_val y4)
             (10 * digit_val m1 + digit_val m2) (10 * digit_val d1 + digit_val d2))
   \<and> \<not> is_iso_date ''2024-02-30'' \<and> is_iso_date ''2024-02-29''"
proof -
  have a: "validate ks data \<noteq> Inr ()"
    if "dict_get data ''updated_at'' = Some v" and "\<not> iso_date_str v"
    using that by (simp add: validate_ok present_but_not_Some)
  have b: "\<not> is_iso_date ''2024-02-30''"
    by code_simp
  have c: "is_iso_date ''2024-02-29''"
    by code_simp
  show ?thesis
    using validate_updated_at [of data v ks] a iso_date_str_iff [of v]
      extended_form [of y1 y2 y3 y4 m1 m2 d1 d2] b c
    by blast
qed

theorem updated_at_validation_witness:
  "dict_get BAD_DATE ''updated_at'' = Some (JStr ''2024-02-30'')
   \<and> validate REQUIRED_KEYS BAD_DATE = fail UPDATED_AT_MESSAGE
   \<and> dict_get LEAP_DAY ''updated_at'' = Some (JStr ''2024-02-29'')
   \<and> validate REQUIRED_KEYS LEAP_DAY = Inr ()"
proof -
  have g: "dict_get BAD_DATE ''updated_at'' = Some (JStr ''2024-02-30'')"
    by code_simp
  have m: "missing_keys BAD_DATE = []"
    by code_simp
  have r: "check_required REQUIRED_KEYS BAD_DATE = Inr ()"
    by code_simp
  have n: "\<not> iso_date_str (JStr ''2024-02-30'')"
    by code_simp
  have l: "dict_get LEAP_DAY ''updated_at'' = Some (JStr ''2024-02-29'')"
    by code_simp
  have v: "validate REQUIRED_KEYS LEAP_DAY = Inr ()"
    by code_simp
  from updated_at_validation [of BAD_DATE "JStr ''2024-02-30''" REQUIRED_KEYS] g m r n l v
  show ?thesis
    by simp
qed

text \<open>
  The claim as it was worded fails in two ways. A record whose \<^verbatim>\<open>updated_at\<close> is
  \<^verbatim>\<open>20240229\<close>, which is not written YYYY-MM-DD, passes validation, because
  \<^verbatim>\<open>date.fromisoformat\<close> also reads the basic form and ISO week dates. And a record
  whose \<^verbatim>\<open>updated_at\<close> is the valid date \<^verbatim>\<open>2024-02-29\<close> still fails validation when
  another check fails first, here the check for missing keys.
\<close>

theorem updated_at_claim_counterexample:
  "dict_get BASIC_DATE ''updated_at'' = Some (JStr ''20240229'')
   \<and> validate REQUIRED_KEYS BASIC_DATE = Inr ()
   \<and> is_iso_date ''2024-02-29''
   \<and> validate REQUIRED_KEYS [(''updated_at'', JStr ''2024-02-29'')] =
       fail ''Missing required keys: impact, one_liner, problem, solution, stack, title''"
  by code_simp

section \<open>Private-key headers\<close>








section \<open>The minimal input\<close>

text \<open>
  Claim C7. With no \<^verbatim>\<open>GITHUB_REPOSITORY\<close> in the environment, a run on the minimal input
  exits with status 0 after writing the sanitized record and the Markdown card. The
  sanitized record has exactly the nine keys \<^verbatim>\<open>title\<close>, \<^verbatim>\<open>one_liner\<close>, \<^verbatim>\<open>problem\<close>,
  \<^verbatim>\<open>solution\<close>, \<^verbatim>\<open>impact\<close>, \<^verbatim>\<open>stack\<close>, \<^verbatim>\<open>project_id\<close>, \<^verbatim>\<open>generated_at\<close>,
  \<^verbatim>\<open>updated_at\<close>, each once. The Markdown begins with \<^verbatim>\<open>## T\<close> and has the line
  \<^verbatim>\<open>- Stack: Go\<close>.
\<close>

theorem minimal_input_rendered:
  assumes "github_repository e = None" and "set (required_order e) = set REQUIRED_KEYS"
  shows "main e a (Parsed (JObj MINIMAL)) =
           \<lparr>exit_status = 0, stderr = [],
            effects =
              [MkdirParent (out_json_path a), MkdirParent (out_md_path a),
               WriteJson (out_json_path a) (sanitize e MINIMAL),
               WriteText (out_md_path a)
                 (join [NL]
                    [''## T'', [], ''O'', [], ''- Status: active'',
                     ''- Updated: '' @ now_date e, ''- Stack: Go'', ''- Impact: I'', [],
                     ''### Problem'', [], ''P'', [], ''### Solution'', [], ''S'', []])]\<rparr>
         \<and> set (dict_keys (sanitize e MINIMAL)) =
             {''title'', ''one_liner'', ''problem'', ''solution'', ''impact'', ''stack'',
              ''project_id'', ''generated_at'', ''updated_at''}
         \<and> distinct (dict_keys (sanitize e MINIMAL))
         \<and> (\<exists>md rest before after.
               render_markdown (str_repr e) (sanitize e MINIMAL) = Inr md
               \<and> md = ''## T'' @ rest
               \<and> md = before @ [NL] @ ''- Stack: Go'' @ [NL] @ after)"
proof -
  have "validate REQUIRED_KEYS MINIMAL = Inr ()"
    by code_simp
  with assms(2) have v: "validate (required_order e) MINIMAL = Inr ()"
    by (rule validate_any_order)
  note s = sanitize_minimal [OF assms(1)]
  have r: "render_markdown (str_repr e) (sanitize e MINIMAL) =
      Inr (join [NL]
          [''## T'', [], ''O'', [], ''- Status: active'', ''- Updated: '' @ now_date e,
           ''- Stack: Go'', ''- Impact: I'', [], ''### Problem'', [], ''P'', [],
           ''### Solution'', [], ''S'', []])"
    unfolding s by (rule render_minimal)
  have m: "main e a (Parsed (JObj MINIMAL)) =
           \<lparr>exit_status = 0, stderr = [],
            effects =
              [MkdirParent (out_json_path a), MkdirParent (out_md_path a),
               WriteJson (out_json_path a) (sanitize e MINIMAL),
               WriteText (out_md_path a)
                 (join [NL]
                    [''## T'', [], ''O'', [], ''- Status: active'',
                     ''- Updated: '' @ now_date e, ''- Stack: Go'', ''- Impact: I'', [],
                     ''### Problem'', [], ''P'', [], ''### Solution'', [], ''S'', []])]\<rparr>"
    by (simp add: main_def run_checks_def v r Let_def)
  have k: "set (dict_keys (sanitize e MINIMAL)) =
             {''title'', ''one_liner'', ''problem'', ''solution'', ''impact'', ''stack'',
              ''project_id'', ''generated_at'', ''updated_at''}"
    unfolding s by (auto simp: MINIMAL_def dict_keys_def)
  have d: "distinct (dict_keys (sanitize e MINIMAL))"
    unfolding s by (simp add: MINIMAL_def dict_keys_def)
  have b: "join [NL]
          [''## T'', [], ''O'', [], ''- Status: active'', ''- Updated: '' @ now_date e,
           ''- Stack: Go'', ''- Impact: I'', [], ''### Problem'', [], ''P'', [],
           ''### Solution'', [], ''S'', []] =
        ''## T'' @ ([NL, NL] @ ''O'' @ [NL, NL] @ ''- Status: active'' @ [NL] @ ''- Updated: ''
           @ now_date e @ [NL] @ ''- Stack: Go'' @ [NL] @ ''- Impact: I'' @ [NL, NL]
           @ ''### Problem'' @ [NL, NL] @ ''P'' @ [NL, NL] @ ''### Solution'' @ [NL, NL]
           @ ''S'' @ [NL])"
    by simp
  have c: "join [NL]
          [''## T'', [], ''O'', [], ''- Status: active'', ''- Updated: '' @ now_date e,
           ''- Stack: Go'', ''- Impact: I'', [], ''### Problem'', [], ''P'', [],
           ''### Solution'', [], ''S'', []] =
        (''## T'' @ [NL, NL] @ ''O'' @ [NL, NL] @ ''- Status: active'' @ [NL] @ ''- Updated: ''
           @ now_date e) @ [NL] @ ''- Stack: Go'' @ [NL] @ (''- Impact: I'' @ [NL, NL]
           @ ''### Problem'' @ [NL, NL] @ ''P'' @ [NL, NL] @ ''### Solution'' @ [NL, NL]
           @ ''S'' @ [NL])"
    by simp
  from m k d r b c show ?thesis
    by blast
qed

theorem minimal_input_rendered_witness:
  "github_repository EXAMPLE_ENV = None
   \<and> set (required_order EXAMPLE_ENV) = set REQUIRED_KEYS
   \<and> effects (main EXAMPLE_ENV EXAMPLE_ARGS (Parsed (JObj MINIMAL))) =
       [MkdirParent ''out/card.json'', MkdirParent ''out/card.md'',
        WriteJson ''out/card.json''
          (MINIMAL @ [(''project_id'', JStr ''site''),
                      (''generated_at'', JStr ''2026-11-04T12:24:00.123456Z''),
                      (''updated_at'', JStr ''2026-11-04'')]),
        WriteText ''out/card.md''
          (join [NL]
             [''## T'', [], ''O'', [], ''- Status: active'', ''- Updated: 2026-11-04'',
              ''- Stack: Go'', ''- Impact: I'', [], ''### Problem'', [], ''P'', [],
              ''### Solution'', [], ''S'', []])]"
proof -
  have g: "github_repository EXAMPLE_ENV = None"
    by (simp add: EXAMPLE_ENV_def)
  have o: "set (required_order EXAMPLE_ENV) = set REQUIRED_KEYS"
    by (simp add: EXAMPLE_ENV_def)
  have s: "sanitize EXAMPLE_ENV MINIMAL =
      MINIMAL @ [(''project_id'', JStr ''site''),
                 (''generated_at'', JStr ''2026-11-04T12:24:00.123456Z''),
                 (''updated_at'', JStr ''2026-11-04'')]"
    by code_simp
  from minimal_input_rendered [OF g o, of EXAMPLE_ARGS] g o show ?thesis
    by (simp add: s) (simp add: EXAMPLE_ENV_def EXAMPLE_ARGS_def)
qed

section \<open>The highlights section\<close>



section \<open>Sanitizing a sanitized record\<close>

text \<open>
  Claim C9, as the code has it. Let \<open>R\<close> be the output of the sanitizer, and let it be
  sanitized again with the same working directory and the same \<^verbatim>\<open>GITHUB_REPOSITORY\<close>.
  Then the second output agrees with \<open>R\<close> on every key other than \<^verbatim>\<open>generated_at\<close> and
  \<^verbatim>\<open>project_id\<close> (a key absent from one is absent from the other). It agrees on
  \<^verbatim>\<open>project_id\<close> as well when \<^verbatim>\<open>GITHUB_REPOSITORY\<close> is set or the first input had no
  \<^verbatim>\<open>repo\<close> to speak of, and on \<^verbatim>\<open>generated_at\<close> when the clock reads the same.
\<close>

theorem resanitize_agrees:
  assumes "cwd e' = cwd e" and "github_repository e' = github_repository e"
  shows "(k \<noteq> ''generated_at'' \<and> k \<noteq> ''project_id'' \<longrightarrow>
            dict_get (sanitize e' (sanitize e data)) k = dict_get (sanitize e data) k)
         \<and> ((\<exists>r. github_repository e = Some r \<and> r \<noteq> []) \<or> \<not> get_truthy data ''repo'' \<longrightarrow>
              dict_get (sanitize e' (sanitize e data)) ''project_id'' =
              dict_get (sanitize e data) ''project_id'')
         \<and> (now_isoformat e' = now_isoformat e \<longrightarrow>
              dict_get (sanitize e' (sanitize e data)) ''generated_at'' =
              dict_get (sanitize e data) ''generated_at'')"
proof (intro conjI impI)
  assume k: "k \<noteq> ''generated_at'' \<and> k \<noteq> ''project_id''"
  show "dict_get (sanitize e' (sanitize e data)) k = dict_get (sanitize e data) k"
  proof (cases "k \<in> set COMPUTED_KEYS")
    case True
    with k have "k = ''updated_at'' \<or> k = ''source_repo''"
      by (auto simp: COMPUTED_KEYS_def)
    then show ?thesis
      using assms(2) by (auto simp: sanitize_get_updated_at sanitize_get_source_repo)
  next
    case False
    then show ?thesis
      by (simp add: sanitize_get_other)
  qed
next
  assume "(\<exists>r. github_repository e = Some r \<and> r \<noteq> []) \<or> \<not> get_truthy data ''repo''"
  then show "dict_get (sanitize e' (sanitize e data)) ''project_id'' =
             dict_get (sanitize e data) ''project_id''"
    using assms by (auto simp: sanitize_get_project_id sanitize_drops_repo Let_def
                         split: option.splits)
next
  assume "now_isoformat e' = now_isoformat e"
  then show "dict_get (sanitize e' (sanitize e data)) ''generated_at'' =
             dict_get (sanitize e data) ''generated_at''"
    by (simp add: sanitize_get_generated_at)
qed

theorem resanitize_agrees_witness:
  "\<not> get_truthy MINIMAL ''repo''
   \<and> dict_get (sanitize EXAMPLE_ENV (sanitize EXAMPLE_ENV MINIMAL)) ''title'' = Some (JStr ''T'')
   \<and> dict_get (sanitize EXAMPLE_ENV (sanitize EXAMPLE_ENV MINIMAL)) ''project_id'' =
       Some (JStr ''site'')
   \<and> dict_get (sanitize EXAMPLE_ENV (sanitize EXAMPLE_ENV MINIMAL)) ''generated_at'' =
       Some (JStr ''2026-11-04T12:24:00.123456Z'')"
proof -
  have r: "\<not> get_truthy MINIMAL ''repo''"
    by code_simp
  have t: "dict_get (sanitize EXAMPLE_ENV MINIMAL) ''title'' = Some (JStr ''T'')"
    by code_simp
  have p: "dict_get (sanitize EXAMPLE_ENV MINIMAL) ''project_id'' = Some (JStr ''site'')"
    by code_simp
  have g: "dict_get (sanitize EXAMPLE_ENV MINIMAL) ''generated_at'' =
             Some (JStr ''2026-11-04T12:24:00.123456Z'')"
    by code_simp
  from resanitize_agrees [of EXAMPLE_ENV EXAMPLE_ENV "''title''" MINIMAL] r t p g
  show ?thesis
    by simp
qed

text \<open>
  The claim as it was worded fails for \<^verbatim>\<open>project_id\<close>. The first run takes it from the
  field \<^verbatim>\<open>repo\<close> of the input; the sanitizer drops \<^verbatim>\<open>repo\<close>, so the second run falls
  back to the name of the working directory.
\<close>

theorem resanitize_claim_counterexample:
  "missing_keys (sanitize EXAMPLE_ENV WITH_REPO) = []
   \<and> dict_get (sanitize EXAMPLE_ENV WITH_REPO) ''project_id'' = Some (JStr ''widget'')
   \<and> dict_get (sanitize EXAMPLE_ENV (sanitize EXAMPLE_ENV WITH_REPO)) ''project_id'' =
       Some (JStr ''site'')"
  by code_simp

section \<open>Key names are not scanned\<close>

lemma walk_strings_rename: "walk_strings (rename_keys f v) = walk_strings v"
proof (induction f v rule: rename_keys.induct)
  case (1 f kvs)
  have eq: "map (\<lambda>p. walk_strings (rename_keys f (snd p))) kvs = map (\<lambda>p. walk_strings (snd p)) kvs"
  proof (rule map_cong [OF refl])
    fix p
    assume "p \<in> set kvs"
    with "1.IH" [of p "fst p" "snd p"] show "walk_strings (rename_keys f (snd p)) = walk_strings (snd p)"
      by simp
  qed
  show ?case
    by (simp add: comp_def case_prod_unfold eq)
next
  case (2 f items)
  then have eq: "map (\<lambda>v. walk_strings (rename_keys f v)) items = map walk_strings items"
    by (intro map_cong) auto
  show ?case
    by (simp add: comp_def eq)
qed simp_all

text \<open>
  Claim C10. The strings that \<open>walk_strings\<close> collects from a value stay the same when the
  keys of its objects, at every depth, are given other names: no key is ever collected.
  So when a record passes validation, it still passes after a further key \<open>k\<close> is put
  into it anywhere, whatever the name \<open>k\<close> (be it \<^verbatim>\<open>password\<close> or \<^verbatim>\<open>api_key\<close>), provided
  \<open>k\<close> is new, is not one of the checked optional keys \<^verbatim>\<open>updated_at\<close>, \<^verbatim>\<open>tags\<close>,
  \<^verbatim>\<open>highlights\<close>, and no string inside its value looks sensitive.
\<close>

theorem key_names_not_scanned:
  "walk_strings (rename_keys f x) = walk_strings x
   \<and> (validate ks (d1 @ d2) = Inr ()
      \<and> k \<notin> set (dict_keys (d1 @ d2)) \<and> k \<notin> {''updated_at'', ''tags'', ''highlights''}
      \<and> \<not> list_ex sensitive (walk_strings v)
      \<longrightarrow> validate ks (d1 @ (k, v) # d2) = Inr ())"
proof (intro conjI impI)
  show "walk_strings (rename_keys f x) = walk_strings x"
    by (rule walk_strings_rename)
next
  assume a: "validate ks (d1 @ d2) = Inr ()
      \<and> k \<notin> set (dict_keys (d1 @ d2)) \<and> k \<notin> {''updated_at'', ''tags'', ''highlights''}
      \<and> \<not> list_ex sensitive (walk_strings v)"
  then have ok: "missing_keys (d1 @ d2) = []" "check_required ks (d1 @ d2) = Inr ()"
      "\<not> present_but_not iso_date_str ''updated_at'' (d1 @ d2)"
      "\<not> present_but_not str_list ''tags'' (d1 @ d2)"
      "\<not> present_but_not str_list ''highlights'' (d1 @ d2)"
      "\<not> list_ex sensitive (walk_strings (JObj (d1 @ d2)))"
    by (simp_all add: validate_ok)
  from a have k: "k \<notin> set (dict_keys (d1 @ d2))" "''updated_at'' \<noteq> k" "''tags'' \<noteq> k"
      "''highlights'' \<noteq> k" "\<not> list_ex sensitive (walk_strings v)"
    by auto
  from ok(1) have "missing_keys (d1 @ (k, v) # d2) = []"
    by (auto simp: missing_keys_Nil dict_keys_def)
  moreover from ok(2) k(1) have "check_required ks (d1 @ (k, v) # d2) = Inr ()"
    by (rule check_required_insert)
  moreover from ok(6) k(5) have "\<not> list_ex sensitive (walk_strings (JObj (d1 @ (k, v) # d2)))"
    by (simp add: list_ex_iff) blast
  ultimately show "validate ks (d1 @ (k, v) # d2) = Inr ()"
    using ok(3-5) k(2-4) by (simp add: validate_ok present_but_not_insert)
qed

theorem key_names_not_scanned_witness:
  "sensitive ''password'' \<and> sensitive ''api_key''
   \<and> validate REQUIRED_KEYS MINIMAL = Inr ()
   \<and> ''password'' \<notin> set (dict_keys MINIMAL)
   \<and> \<not> list_ex sensitive (walk_strings (JStr ''rotated''))
   \<and> validate REQUIRED_KEYS (MINIMAL @ [(''password'', JStr ''rotated'')]) = Inr ()"
proof -
  have s: "sensitive ''password'' \<and> sensitive ''api_key''"
    by code_simp
  have v: "validate REQUIRED_KEYS (MINIMAL @ []) = Inr ()"
    by code_simp
  have k: "''password'' \<notin> set (dict_keys (MINIMAL @ []))"
    by code_simp
  have b: "\<not> list_ex sensitive (walk_strings (JStr ''rotated''))"
    by code_simp
  from key_names_not_scanned
         [where ks = REQUIRED_KEYS and ?d1.0 = MINIMAL and ?d2.0 = "[]" and k = "''password''"
            and v = "JStr ''rotated''"]
       s v k b
  show ?thesis
    by simp
qed

end
